theory Spec2Isabelle
  imports Complex_Main "HOL-Library.AList"
begin

section \<open>Strings, errors and the data model\<close>

text \<open>
  A Python \<open>str\<close> is a sequence of Unicode code points, and \<open>len\<close> counts code points.
  A string is therefore modelled as the list of its code points (\<open>ord\<close> of each character),
  not as a byte string.
\<close>

type_synonym ustr = "nat list"

text \<open>The exceptions the modelled code can raise.  \<open>utils.log_and_raise\<close> is taken to log and then
  raise the given exception class; \<open>IndexError\<close> and \<open>ValueError\<close> are the built-in exceptions of
  an out-of-range index, of \<open>max()\<close> on an empty sequence and of a time outside the range of
  \<open>datetime\<close>; \<open>DbmError\<close> is \<open>dbm.error\<close>, raised by \<open>shelve.open\<close> with flag \<open>'r'\<close> when there
  is no database to open.\<close>

datatype error =
    ResourceLoadError
  | ResourceNotReadyError
  | TextAnalysisError
  | IndexError
  | ValueError
  | DbmError

text \<open>\<open>myaku.datatypes\<close>: the fields are those the analysis module passes by keyword or reads.
  Attributes with the default \<open>None\<close> are options.\<close>

datatype InterpSource =
    MECAB
  | JMDICT_MECAB_DECOMP
  | JMDICT_SURFACE_FORM
  | JMDICT_BASE_FORM

record ArticleTextPosition =
  start :: int
  len :: nat

record MecabLexicalItemInterp =
  parts_of_speech :: "ustr list"
  conjugated_type :: "ustr option"
  conjugated_form :: "ustr option"

record JpnLexicalItemInterp =
  mecab_interp :: "MecabLexicalItemInterp option"
  jmdict_interp_entry_id :: "ustr option"
  interp_sources :: "InterpSource list"

record JpnArticle =
  full_text :: ustr

record FoundJpnLexicalItem =
  base_form :: ustr
  found_positions :: "ArticleTextPosition list"
  possible_interps :: "JpnLexicalItemInterp list"
  article :: "JpnArticle option"
  surface_form_cache :: "(ArticleTextPosition \<times> ustr) list"

text \<open>Modelled from the spec: \<open>FoundJpnLexicalItem.cache_surface_form\<close> and
  \<open>FoundJpnLexicalItem.get_first_surface_form\<close> (module \<open>myaku.datatypes\<close>).  The item keeps
  a per-position cache of surface forms, holding the positions whose literal text differs from
  the base form; the first surface form is the cached one of the first position, and the base
  form when that position has no cached entry.\<close>

definition cache_surface_form ::
  "ustr \<Rightarrow> ArticleTextPosition \<Rightarrow> FoundJpnLexicalItem \<Rightarrow> FoundJpnLexicalItem" where
  "cache_surface_form surface_form text_pos fli =
     (if surface_form = base_form fli then fli
      else fli\<lparr>surface_form_cache := AList.update text_pos surface_form (surface_form_cache fli)\<rparr>)"

definition get_first_surface_form :: "FoundJpnLexicalItem \<Rightarrow> ustr" where
  "get_first_surface_form fli =
     (case found_positions fli of
        [] \<Rightarrow> base_form fli
      | p # _ \<Rightarrow> (case map_of (surface_form_cache fli) p of
                    None \<Rightarrow> base_form fli
                  | Some s \<Rightarrow> s))"

section \<open>Python string operations\<close>

text \<open>\<open>str.split(sep)\<close> for a one-character separator: every occurrence of the separator ends a
  field, so the empty string gives one empty field.\<close>

fun split_on :: "nat \<Rightarrow> ustr \<Rightarrow> ustr \<Rightarrow> ustr list" where
  "split_on sep cur [] = [cur]"
| "split_on sep cur (c # cs) =
     (if c = sep then cur # split_on sep [] cs else split_on sep (cur @ [c]) cs)"

definition py_split :: "ustr \<Rightarrow> nat \<Rightarrow> ustr list" where
  "py_split s sep = split_on sep [] s"

text \<open>\<open>str.splitlines()\<close>: the line boundaries of Python 3 are LF, VT, FF, CR, CR LF, FS, GS,
  RS, NEL, LS and PS; a final line break does not open another line.\<close>

definition line_boundary :: "nat \<Rightarrow> bool" where
  "line_boundary c = (c \<in> {10, 11, 12, 13, 28, 29, 30, 133, 8232, 8233})"

fun splitlines_from :: "ustr \<Rightarrow> ustr \<Rightarrow> ustr list" where
  "splitlines_from cur [] = (if cur = [] then [] else [cur])"
| "splitlines_from cur [c] =
     (if line_boundary c then [cur] else [cur @ [c]])"
| "splitlines_from cur (c # d # ds) =
     (if c = 13 \<and> d = 10 then cur # splitlines_from [] ds
      else if line_boundary c then cur # splitlines_from [] (d # ds)
      else splitlines_from (cur @ [c]) (d # ds))"

definition splitlines :: "ustr \<Rightarrow> ustr list" where
  "splitlines s = splitlines_from [] s"

section \<open>The MeCab tagger wrapper\<close>

text \<open>Class constants of \<open>MecabTagger\<close>: \<open>'EOS'\<close>, \<open>'-'\<close>, tab, the accepted tag counts, and
  the table of known tagging problems with its single entry
  (na, NA, da, jodoushi, tokushu-DA, taigen-setsuzoku) to (na, NA, na, ...).\<close>

definition END_OF_SECTION_MARKER :: ustr where
  "END_OF_SECTION_MARKER = [69, 79, 83]"

definition POS_SPLITTER :: nat where
  "POS_SPLITTER = 45"

definition TOKEN_SPLITTER :: nat where
  "TOKEN_SPLITTER = 9"

definition EXPECTED_TOKEN_TAG_COUNTS :: "nat set" where
  "EXPECTED_TOKEN_TAG_COUNTS = {4, 5, 6}"

definition ADJUST_TAGS_MAP :: "(ustr list \<times> ustr list) list" where
  "ADJUST_TAGS_MAP =
     [([[12394], [12490], [12384], [21161, 21205, 35422], [29305, 27530, 12539, 12480],
        [20307, 35328, 25509, 32154]],
       [[12394], [12490], [12394], [21161, 21205, 35422], [29305, 27530, 12539, 12480],
        [20307, 35328, 25509, 32154]])]"

text \<open>\<open>_adjust_if_known_problem\<close> changes the list in place; the model returns the new list.\<close>

definition adjust_if_known_problem :: "ustr list \<Rightarrow> ustr list" where
  "adjust_if_known_problem tags =
     (let tags1 = (if length tags \<ge> 4 \<and> length (tags ! 0) > 0 \<and> length (tags ! 2) = 0
                   then tags[2 := tags ! 0] else tags)
      in case map_of ADJUST_TAGS_MAP tags1 of
           None \<Rightarrow> tags1
         | Some adjusted_tags \<Rightarrow> map (\<lambda>i. adjusted_tags ! i) [0 ..< length tags1])"

definition parse_mecab_output :: "ustr \<Rightarrow> ustr list list" where
  "parse_mecab_output output =
     map (\<lambda>line. filter (\<lambda>t. length t > 0)
                    (adjust_if_known_problem (py_split line TOKEN_SPLITTER)))
         (filter (\<lambda>line. length line \<noteq> 0) (splitlines output))"

text \<open>\<open>_create_mecab_interp\<close>.  The source assigns \<open>mecab_interp\<close> in an \<open>if\<close> for six or more
  tags and then again in a separate \<open>if \<dots> else\<close> for five or more tags, so the second
  statement always overwrites the first assignment.  Reading \<open>parsed_token_tags[3]\<close> raises
  \<open>IndexError\<close> on fewer than four tags.\<close>

definition create_mecab_interp :: "ustr list \<Rightarrow> error + JpnLexicalItemInterp" where
  "create_mecab_interp parsed_token_tags =
     (if length parsed_token_tags < 4 then Inl IndexError
      else
        let pos = py_split (parsed_token_tags ! 3) POS_SPLITTER;
            mecab_interp0 =
              (if length parsed_token_tags \<ge> 6
               then Some \<lparr>parts_of_speech = pos,
                          conjugated_type = Some (parsed_token_tags ! 4),
                          conjugated_form = Some (parsed_token_tags ! 5)\<rparr>
               else None);
            mecab_interp1 =
              (if length parsed_token_tags \<ge> 5
               then Some \<lparr>parts_of_speech = pos,
                          conjugated_type = Some (parsed_token_tags ! 4),
                          conjugated_form = None\<rparr>
               else Some \<lparr>parts_of_speech = pos,
                          conjugated_type = None,
                          conjugated_form = None\<rparr>)
        in Inr \<lparr>mecab_interp = mecab_interp1,
                jmdict_interp_entry_id = None,
                interp_sources = [MECAB]\<rparr>)"

definition create_found_lexical_item ::
  "ustr list \<Rightarrow> JpnLexicalItemInterp \<Rightarrow> int \<Rightarrow> error + FoundJpnLexicalItem" where
  "create_found_lexical_item parsed_token_tags interp offset =
     (if length parsed_token_tags < 3 then Inl IndexError
      else
        let text_pos = \<lparr>start = offset, len = length (parsed_token_tags ! 0)\<rparr>;
            found_lexical_item =
              \<lparr>base_form = parsed_token_tags ! 2,
               found_positions = [text_pos],
               possible_interps = [interp],
               article = None,
               surface_form_cache = []\<rparr>
        in Inr (cache_surface_form (parsed_token_tags ! 0)
                  (found_positions found_lexical_item ! 0) found_lexical_item))"

text \<open>The \<open>while\<close> loop of \<open>parse\<close> that moves the offset forward until the text at the offset
  is the surface form.  Nothing bounds the offset, so the loop is a partial function:
  \<open>None\<close> is the run that never leaves the loop.  A Python slice past the end of the text is
  shorter or empty, as \<open>take\<close> of \<open>drop\<close> is.\<close>

partial_function (option) adjust_offset :: "ustr \<Rightarrow> ustr \<Rightarrow> nat \<Rightarrow> nat option" where
  "adjust_offset text surface offset =
     (if take (length surface) (drop offset text) \<noteq> surface
      then adjust_offset text surface (offset + 1)
      else Some offset)"

text \<open>The \<open>for\<close> loop of \<open>parse\<close> over the parsed token lines, with the local variables
  \<open>offset\<close> and \<open>found_lexical_items\<close> as arguments.  The result is \<open>None\<close> when the run does
  not return, \<open>Some (Inl e)\<close> when it raises \<open>e\<close>, and \<open>Some (Inr items)\<close> when it returns.\<close>

fun parse_loop ::
  "ustr \<Rightarrow> int \<Rightarrow> ustr list list \<Rightarrow> nat \<Rightarrow> FoundJpnLexicalItem list
     \<Rightarrow> (error + FoundJpnLexicalItem list) option" where
  "parse_loop text text_offset [] offset found_lexical_items = Some (Inr found_lexical_items)"
| "parse_loop text text_offset (parsed_token_tags # rest) offset found_lexical_items =
     (if length parsed_token_tags = 1 \<and> parsed_token_tags ! 0 = END_OF_SECTION_MARKER
      then parse_loop text text_offset rest offset found_lexical_items
      else if length parsed_token_tags \<notin> EXPECTED_TOKEN_TAG_COUNTS
      then Some (Inl TextAnalysisError)
      else
        (case adjust_offset text (parsed_token_tags ! 0) offset of
           None \<Rightarrow> None
         | Some offset1 \<Rightarrow>
             (case create_mecab_interp parsed_token_tags of
                Inl e \<Rightarrow> Some (Inl e)
              | Inr interp \<Rightarrow>
                  (case create_found_lexical_item parsed_token_tags interp
                          (text_offset + int offset1) of
                     Inl e \<Rightarrow> Some (Inl e)
                   | Inr fli \<Rightarrow>
                       parse_loop text text_offset rest
                         (offset1 + length (parsed_token_tags ! 0))
                         (found_lexical_items @ [fli])))))"

text \<open>\<open>MecabTagger.parse\<close>.  The MeCab library call \<open>self._mecab_tagger.parse(text)\<close> is the
  parameter \<open>mecab\<close>, a function from the text to MeCab's chasen output.\<close>

definition parse :: "(ustr \<Rightarrow> ustr) \<Rightarrow> ustr \<Rightarrow> int \<Rightarrow> (error + FoundJpnLexicalItem list) option" where
  "parse mecab text text_offset =
     parse_loop text text_offset (parse_mecab_output (mecab text)) 0 []"

section \<open>The JMdict dictionary store\<close>

text \<open>\<open>JMdictEntry\<close>.  Every entry that reaches the indexes has passed the two required
  \<open>_parse_text_elements\<close> calls, so \<open>entry_id\<close> and \<open>text_form\<close> are strings; the other
  attributes keep their default \<open>None\<close> until an element sets them.  The attributes
  \<open>parts_of_speech\<close> and \<open>fields\<close> of the entry are \<open>entry_parts_of_speech\<close> and
  \<open>entry_fields\<close> here.\<close>

record JMdictEntry =
  entry_id :: ustr
  text_form :: ustr
  text_form_info :: "ustr list option"
  text_form_freq :: "ustr list option"
  entry_parts_of_speech :: "ustr list option"
  entry_fields :: "ustr list option"
  dialects :: "ustr list option"
  misc :: "ustr list option"

text \<open>A Python \<open>dict\<close> keeps its keys in insertion order, and the cache is written from
  \<open>items()\<close>, so a dictionary is an association list with distinct keys in insertion order.
  \<open>AList.update\<close> is the assignment \<open>d[k] = v\<close>: in place for a present key, at the end for a
  new one.  \<open>dict_append\<close> is \<open>d[k].append(v)\<close> on a \<open>defaultdict(list)\<close>.\<close>

type_synonym EntryMap = "(ustr \<times> JMdictEntry list) list"
type_synonym MecabDecompMap = "(ustr list \<times> JMdictEntry list) list"

definition dict_append :: "'k \<Rightarrow> 'v \<Rightarrow> ('k \<times> 'v list) list \<Rightarrow> ('k \<times> 'v list) list" where
  "dict_append k v d =
     AList.update k ((case map_of d k of None \<Rightarrow> [] | Some l \<Rightarrow> l) @ [v]) d"

definition dict_get :: "('k \<times> 'v list) list \<Rightarrow> 'k \<Rightarrow> 'v list" where
  "dict_get d k = (case map_of d k of None \<Rightarrow> [] | Some l \<Rightarrow> l)"

definition dict_contains :: "('k \<times> 'v) list \<Rightarrow> 'k \<Rightarrow> bool" where
  "dict_contains d k = (map_of d k \<noteq> None)"

text \<open>The attributes \<open>_entry_map\<close>, \<open>_mecab_decomp_map\<close>, \<open>_max_text_form_len\<close> and
  \<open>_max_mecab_decomp_len\<close> of a \<open>JMdict\<close> object; \<open>__init__\<close> sets all four to \<open>None\<close>.\<close>

record JMdict =
  p_entry_map :: "EntryMap option"
  p_mecab_decomp_map :: "MecabDecompMap option"
  p_max_text_form_len :: "nat option"
  p_max_mecab_decomp_len :: "nat option"

definition init_JMdict :: JMdict where
  "init_JMdict = \<lparr>p_entry_map = None, p_mecab_decomp_map = None,
                   p_max_text_form_len = None, p_max_mecab_decomp_len = None\<rparr>"

definition max_text_form_len :: "JMdict \<Rightarrow> error + nat" where
  "max_text_form_len jm =
     (case p_max_text_form_len jm of None \<Rightarrow> Inl ResourceNotReadyError | Some n \<Rightarrow> Inr n)"

definition max_mecab_decomp_len :: "JMdict \<Rightarrow> error + nat" where
  "max_mecab_decomp_len jm =
     (case p_max_mecab_decomp_len jm of None \<Rightarrow> Inl ResourceNotReadyError | Some n \<Rightarrow> Inr n)"

text \<open>\<open>_get_mecab_decomb\<close>: the base forms of the items MeCab finds in the text form.\<close>

definition get_mecab_decomb :: "(ustr \<Rightarrow> ustr) \<Rightarrow> JMdictEntry \<Rightarrow> (error + ustr list) option" where
  "get_mecab_decomb mecab entry =
     (case parse mecab (text_form entry) 0 of
        None \<Rightarrow> None
      | Some (Inl e) \<Rightarrow> Some (Inl e)
      | Some (Inr flis) \<Rightarrow> Some (Inr (map base_form flis)))"

text \<open>The loop of \<open>load_jmdict\<close> over the entry objects, filling both maps.\<close>

fun load_entries ::
  "(ustr \<Rightarrow> ustr) \<Rightarrow> JMdictEntry list \<Rightarrow> EntryMap \<Rightarrow> MecabDecompMap
     \<Rightarrow> (error + EntryMap \<times> MecabDecompMap) option" where
  "load_entries mecab [] em dm = Some (Inr (em, dm))"
| "load_entries mecab (entry_obj # rest) em dm =
     (case get_mecab_decomb mecab entry_obj of
        None \<Rightarrow> None
      | Some (Inl e) \<Rightarrow> Some (Inl e)
      | Some (Inr mecab_decomp) \<Rightarrow>
          load_entries mecab rest
            (dict_append (text_form entry_obj) entry_obj em)
            (dict_append mecab_decomp entry_obj dm))"

text \<open>\<open>_set_max_entry_lens\<close>: \<open>max()\<close> of an empty sequence raises \<open>ValueError\<close>.\<close>

definition max_len :: "'a list list \<Rightarrow> error + nat" where
  "max_len keys = (if keys = [] then Inl ValueError else Inr (Max (set (map length keys))))"

definition set_max_entry_lens :: "EntryMap \<Rightarrow> MecabDecompMap \<Rightarrow> error + JMdict" where
  "set_max_entry_lens em dm =
     (case max_len (map fst em) of
        Inl e \<Rightarrow> Inl e
      | Inr mt \<Rightarrow>
          (case max_len (map fst dm) of
             Inl e \<Rightarrow> Inl e
           | Inr md \<Rightarrow>
               Inr \<lparr>p_entry_map = Some em, p_mecab_decomp_map = Some dm,
                    p_max_text_form_len = Some mt, p_max_mecab_decomp_len = Some md\<rparr>))"

text \<open>The data directory as the code sees it.  \<open>path_mtime\<close> is the modification time of the
  file at the shelf path itself, if there is such a file (\<open>os.path.exists\<close>,
  \<open>os.path.getmtime\<close>).  \<open>db_items\<close> is the list that a \<open>shelve\<close> database opened at the shelf
  path holds under the key \<open>_mecab_decomp_map_items\<close>, if there is a database to open; only
  \<open>_write_to_shelf\<close> writes the database.  Whether the database is the file at the shelf path
  depends on the \<open>dbm\<close> module that \<open>shelve\<close> uses: \<open>dbm.gnu\<close> keeps the database in that very
  file, \<open>dbm.ndbm\<close> and \<open>dbm.dumb\<close> keep it in files with an added suffix (\<open>.db\<close>, or \<open>.dat\<close> and
  \<open>.dir\<close>) and create no file at the shelf path.  The functions that write take this as the
  parameter \<open>db_file_is_path\<close>.\<close>

record shelf_store =
  path_mtime :: "real option"
  db_items :: "MecabDecompMap option"

text \<open>\<open>datetime.utcfromtimestamp\<close>.  The time is rounded to microseconds and has to fall in
  the years 1 to 9999, that is from \<open>-62135596800\<close> seconds up to but not including
  \<open>253402300800\<close> seconds; otherwise the call raises.  The model raises \<open>ValueError\<close>, the
  exception of a year out of range; for times much further out Python raises \<open>OverflowError\<close>
  or \<open>OSError\<close> instead, which the model does not tell apart.  The result, here the number of
  microseconds, is only used in log messages.  Times are real numbers: the rounding of
  floating-point arithmetic is not modelled.\<close>

definition utcfromtimestamp :: "real \<Rightarrow> error + int" where
  "utcfromtimestamp timestamp =
     (let us = round (timestamp * 1000000)
      in if us < - 62135596800000000 \<or> 253402300800000000 \<le> us then Inl ValueError
         else Inr us)"

text \<open>The loop of \<open>_load_from_shelf_if_newer\<close> over the stored items.\<close>

fun load_shelf_items :: "MecabDecompMap \<Rightarrow> EntryMap \<Rightarrow> MecabDecompMap \<Rightarrow> EntryMap \<times> MecabDecompMap" where
  "load_shelf_items [] em dm = (em, dm)"
| "load_shelf_items ((mecab_decomp, entry_list) # rest) em dm =
     load_shelf_items rest
       (fold (\<lambda>entry m. dict_append (text_form entry) entry m) entry_list em)
       (AList.update mecab_decomp entry_list dm)"

text \<open>\<open>_load_from_shelf_if_newer\<close> returns \<open>None\<close> for the Python result \<open>False\<close> (nothing
  loaded, the object unchanged) and the loaded object for \<open>True\<close>.  Both times are converted
  with \<open>utcfromtimestamp\<close> for the log messages before they are compared.\<close>

definition load_from_shelf_if_newer :: "shelf_store \<Rightarrow> real \<Rightarrow> error + JMdict option" where
  "load_from_shelf_if_newer store comp_timestamp =
     (case path_mtime store of
        None \<Rightarrow> Inr None
      | Some shelf_timestamp \<Rightarrow>
          (case utcfromtimestamp shelf_timestamp of
             Inl e \<Rightarrow> Inl e
           | Inr shelf_dt_timestamp \<Rightarrow>
               (case utcfromtimestamp comp_timestamp of
                  Inl e \<Rightarrow> Inl e
                | Inr comp_dt_timestamp \<Rightarrow>
                    if shelf_timestamp \<le> comp_timestamp then Inr None
                    else
                      (case db_items store of
                         None \<Rightarrow> Inl DbmError
                       | Some mecab_decomp_map_items \<Rightarrow>
                           (case load_shelf_items mecab_decomp_map_items [] [] of
                              (em, dm) \<Rightarrow>
                                (case set_max_entry_lens em dm of
                                   Inl e \<Rightarrow> Inl e
                                 | Inr jm \<Rightarrow> Inr (Some jm)))))))"

text \<open>\<open>_write_to_shelf\<close> opens a new database with flag \<open>'n'\<close> and stores
  \<open>list(self._mecab_decomp_map.items())\<close> in it.  When the database is the file at the shelf
  path, that file gets the time of the write as its modification time; otherwise whatever is
  at the shelf path stays as it is.  The data directory is taken to be writable.\<close>

definition write_to_shelf :: "bool \<Rightarrow> MecabDecompMap \<Rightarrow> real \<Rightarrow> shelf_store \<Rightarrow> shelf_store" where
  "write_to_shelf db_file_is_path dm now store =
     \<lparr>path_mtime = (if db_file_is_path then Some now else path_mtime store),
      db_items = Some dm\<rparr>"

text \<open>\<open>load_jmdict\<close>.  The environment is explicit: the modification time of the XML file, the
  entry objects \<open>_parse_entry_xml\<close> returns for the children of the XML root in document order
  (the XML file exists and parses), the data directory, and the time of the run.  The result
  is the loaded object with the data directory as the run leaves it.\<close>

definition load_jmdict ::
  "bool \<Rightarrow> (ustr \<Rightarrow> ustr) \<Rightarrow> real \<Rightarrow> JMdictEntry list list \<Rightarrow> shelf_store \<Rightarrow> real
     \<Rightarrow> (error + JMdict \<times> shelf_store) option" where
  "load_jmdict db_file_is_path mecab xml_last_modified_time xml_entry_objs store now =
     (case load_from_shelf_if_newer store xml_last_modified_time of
        Inl e \<Rightarrow> Some (Inl e)
      | Inr (Some jm) \<Rightarrow> Some (Inr (jm, store))
      | Inr None \<Rightarrow>
          (case load_entries mecab (concat xml_entry_objs) [] [] of
             None \<Rightarrow> None
           | Some (Inl e) \<Rightarrow> Some (Inl e)
           | Some (Inr (em, dm)) \<Rightarrow>
               (case set_max_entry_lens em dm of
                  Inl e \<Rightarrow> Some (Inl e)
                | Inr jm \<Rightarrow> Some (Inr (jm, write_to_shelf db_file_is_path dm now store)))))"

text \<open>The argument of \<open>contains_entry\<close> and \<open>get_entries\<close> is a string or a tuple of strings,
  told apart by \<open>isinstance(entry, str)\<close>.\<close>

datatype entry_key = TextForm ustr | MecabDecomp "ustr list"

definition contains_entry :: "JMdict \<Rightarrow> entry_key \<Rightarrow> error + bool" where
  "contains_entry jm entry =
     (case (p_entry_map jm, p_mecab_decomp_map jm) of
        (Some em, Some dm) \<Rightarrow>
          (case entry of
             TextForm s \<Rightarrow> Inr (dict_contains em s)
           | MecabDecomp t \<Rightarrow> Inr (dict_contains dm t))
      | _ \<Rightarrow> Inl ResourceNotReadyError)"

definition get_entries :: "JMdict \<Rightarrow> entry_key \<Rightarrow> error + JMdictEntry list" where
  "get_entries jm entry =
     (case (p_entry_map jm, p_mecab_decomp_map jm) of
        (Some em, Some dm) \<Rightarrow>
          (case entry of
             TextForm s \<Rightarrow> Inr (dict_get em s)
           | MecabDecomp t \<Rightarrow> Inr (dict_get dm t))
      | _ \<Rightarrow> Inl ResourceNotReadyError)"

section \<open>The text analyzer\<close>

text \<open>\<open>JapaneseTextAnalyzer._SYMBOL_PART_OF_SPEECH\<close>, the two-character word kigou.\<close>

definition SYMBOL_PART_OF_SPEECH :: ustr where
  "SYMBOL_PART_OF_SPEECH = [35352, 21495]"

text \<open>Modelled from the spec: \<open>utils.unique\<close> (module \<open>myaku.utils\<close>), the unique union that
  preserves first-seen order: an item is kept where it first occurs.\<close>

definition unique :: "'a list \<Rightarrow> 'a list" where
  "unique items = fold (\<lambda>x seen. if x \<in> set seen then seen else seen @ [x]) items []"

text \<open>\<open>_within_jmdict_max_entry_len\<close>.  Each bound is read when its comparison is reached, so
  a missing bound raises only then.\<close>

definition within_jmdict_max_entry_len :: "JMdict \<Rightarrow> FoundJpnLexicalItem list \<Rightarrow> error + bool" where
  "within_jmdict_max_entry_len jm flis =
     (case max_mecab_decomp_len jm of
        Inl e \<Rightarrow> Inl e
      | Inr md \<Rightarrow>
          if length flis \<le> md then Inr True
          else
            (case max_text_form_len jm of
               Inl e \<Rightarrow> Inl e
             | Inr mt \<Rightarrow>
                 if sum_list (map (\<lambda>item. length (base_form item)) flis) \<le> mt then Inr True
                 else if sum_list (map (\<lambda>item. length (get_first_surface_form item)) flis) \<le> mt
                 then Inr True
                 else Inr False))"

text \<open>\<open>_lookup_meta_lexical_item\<close>.  \<open>base_decomp[0].found_positions[0]\<close> is read once per
  entry, so an empty decomposition or an item without a position raises \<open>IndexError\<close> only
  when there is an entry.\<close>

definition lookup_meta_lexical_item ::
  "JMdict \<Rightarrow> FoundJpnLexicalItem list \<Rightarrow> error + FoundJpnLexicalItem list" where
  "lookup_meta_lexical_item jm base_decomp =
     (let decomp_base_forms = map base_form base_decomp in
      case get_entries jm (MecabDecomp decomp_base_forms) of
        Inl e \<Rightarrow> Inl e
      | Inr decomp_entries \<Rightarrow>
     (let surface_form = concat (map get_first_surface_form base_decomp) in
      case get_entries jm (TextForm surface_form) of
        Inl e \<Rightarrow> Inl e
      | Inr surface_entries \<Rightarrow>
     (let base_form_joined = concat decomp_base_forms in
      case get_entries jm (TextForm base_form_joined) of
        Inl e \<Rightarrow> Inl e
      | Inr base_entries \<Rightarrow>
          if decomp_entries = [] \<and> surface_entries = [] \<and> base_entries = [] then Inr []
          else
            (case base_decomp of
               [] \<Rightarrow> Inl IndexError
             | first_item # _ \<Rightarrow>
                 (case found_positions first_item of
                    [] \<Rightarrow> Inl IndexError
                  | first_pos # _ \<Rightarrow>
                      Inr (map (\<lambda>entry.
                             \<lparr>base_form = text_form entry,
                              found_positions =
                                [\<lparr>start = start first_pos, len = length surface_form\<rparr>],
                              possible_interps =
                                [\<lparr>mecab_interp = None,
                                  jmdict_interp_entry_id = Some (entry_id entry),
                                  interp_sources =
                                    (if entry \<in> set decomp_entries
                                     then [JMDICT_MECAB_DECOMP] else []) @
                                    (if entry \<in> set surface_entries
                                     then [JMDICT_SURFACE_FORM] else []) @
                                    (if entry \<in> set base_entries
                                     then [JMDICT_BASE_FORM] else [])\<rparr>],
                              article = None,
                              surface_form_cache = []\<rparr>)
                           (unique (decomp_entries @ surface_entries @ base_entries))))))))"

text \<open>The two loops of \<open>_find_meta_lexical_items\<close>, with the loop variables and the result list
  as arguments.  The lookup the inner loop calls on a window is the argument \<open>lookup\<close>, so that
  the same loops can also report the windows they look up.  \<open>base[start:end + 1]\<close> is
  \<open>take (end + 1 - start) (drop start base)\<close>.\<close>

function find_meta_inner ::
  "JMdict \<Rightarrow> (FoundJpnLexicalItem list \<Rightarrow> error + 'a list) \<Rightarrow> FoundJpnLexicalItem list
     \<Rightarrow> nat \<Rightarrow> nat \<Rightarrow> 'a list \<Rightarrow> error + 'a list" where
  "find_meta_inner jm lookup base_lexical_items start_i end_i meta_lexical_items =
     (if end_i < length base_lexical_items
      then
        (let decomp = take (end_i + 1 - start_i) (drop start_i base_lexical_items) in
         case within_jmdict_max_entry_len jm decomp of
           Inl e \<Rightarrow> Inl e
         | Inr within_len \<Rightarrow>
             if \<not> within_len then Inr meta_lexical_items
             else
               (case lookup decomp of
                  Inl e \<Rightarrow> Inl e
                | Inr lookup_lexical_items \<Rightarrow>
                    find_meta_inner jm lookup base_lexical_items start_i (end_i + 1)
                      (meta_lexical_items @ lookup_lexical_items)))
      else Inr meta_lexical_items)"
  by pat_completeness auto
termination
  by (relation "measure (\<lambda>(jm, lookup, base_lexical_items, start_i, end_i, meta_lexical_items).
        length base_lexical_items - end_i)") auto

declare find_meta_inner.simps [simp del]

function find_meta_outer ::
  "JMdict \<Rightarrow> (FoundJpnLexicalItem list \<Rightarrow> error + 'a list) \<Rightarrow> FoundJpnLexicalItem list
     \<Rightarrow> nat \<Rightarrow> 'a list \<Rightarrow> error + 'a list" where
  "find_meta_outer jm lookup base_lexical_items start_i meta_lexical_items =
     (if start_i < length base_lexical_items
      then
        (case find_meta_inner jm lookup base_lexical_items start_i (start_i + 1)
                meta_lexical_items of
           Inl e \<Rightarrow> Inl e
         | Inr meta_lexical_items1 \<Rightarrow>
             find_meta_outer jm lookup base_lexical_items (start_i + 1) meta_lexical_items1)
      else Inr meta_lexical_items)"
  by pat_completeness auto
termination
  by (relation "measure (\<lambda>(jm, lookup, base_lexical_items, start_i, meta_lexical_items).
        length base_lexical_items - start_i)") auto

declare find_meta_outer.simps [simp del]

definition find_meta_lexical_items ::
  "JMdict \<Rightarrow> FoundJpnLexicalItem list \<Rightarrow> error + FoundJpnLexicalItem list" where
  "find_meta_lexical_items jm base_lexical_items =
     find_meta_outer jm (lookup_meta_lexical_item jm) base_lexical_items 0 []"

text \<open>The windows the loops pass to the lookup, in order: the loops run with a lookup that
  returns its argument.\<close>

definition looked_up_windows ::
  "JMdict \<Rightarrow> FoundJpnLexicalItem list \<Rightarrow> error + FoundJpnLexicalItem list list" where
  "looked_up_windows jm base_lexical_items =
     find_meta_outer jm (\<lambda>decomp. Inr [decomp]) base_lexical_items 0 []"

text \<open>\<open>_is_symbol\<close>: the loop over the interpretations skips those without a MeCab
  interpretation and returns at the first part of speech that is the symbol tag.\<close>

fun is_symbol_interps :: "JpnLexicalItemInterp list \<Rightarrow> bool" where
  "is_symbol_interps [] = False"
| "is_symbol_interps (possible_interp # rest) =
     (case mecab_interp possible_interp of
        None \<Rightarrow> is_symbol_interps rest
      | Some m \<Rightarrow>
          if list_ex (\<lambda>part_of_speech. part_of_speech = SYMBOL_PART_OF_SPEECH)
               (parts_of_speech m)
          then True
          else is_symbol_interps rest)"

definition is_symbol :: "FoundJpnLexicalItem \<Rightarrow> bool" where
  "is_symbol fli = is_symbol_interps (possible_interps fli)"

text \<open>\<open>_find_lexical_items\<close>: the MeCab items, then the meta items found among them, then
  the filter that discards symbols.\<close>

definition find_lexical_items ::
  "(ustr \<Rightarrow> ustr) \<Rightarrow> JMdict \<Rightarrow> ustr \<Rightarrow> int \<Rightarrow> JpnArticle
     \<Rightarrow> (error + FoundJpnLexicalItem list) option" where
  "find_lexical_items mecab jm text offset article_arg =
     (case parse mecab text offset of
        None \<Rightarrow> None
      | Some (Inl e) \<Rightarrow> Some (Inl e)
      | Some (Inr parsed_items) \<Rightarrow>
          (let mecab_lexical_items =
                 map (\<lambda>lexical_item. lexical_item\<lparr>article := Some article_arg\<rparr>) parsed_items
           in case find_meta_lexical_items jm mecab_lexical_items of
                Inl e \<Rightarrow> Some (Inl e)
              | Inr meta_lexical_items \<Rightarrow>
                  Some (Inr (map (\<lambda>item. item\<lparr>article := Some article_arg\<rparr>)
                               (filter (\<lambda>item. \<not> is_symbol item)
                                  (mecab_lexical_items @ meta_lexical_items))))))"

section \<open>Notions used to state the properties\<close>

text \<open>The first position at or after \<open>offset\<close> where the text equals the surface form, if there
  is one.  A non-empty surface form cannot start after the end of the text.\<close>

definition first_match :: "ustr \<Rightarrow> ustr \<Rightarrow> nat \<Rightarrow> nat option" where
  "first_match text surface offset =
     List.find (\<lambda>p. take (length surface) (drop p text) = surface) [offset ..< Suc (length text)]"

text \<open>Every token line of the list has its surface form in the text at or after the place
  where the line before it ended; end-of-section lines do not move the place.\<close>

fun aligned :: "ustr \<Rightarrow> ustr list list \<Rightarrow> nat \<Rightarrow> bool" where
  "aligned text [] offset = True"
| "aligned text (tags # rest) offset =
     (if tags = [END_OF_SECTION_MARKER] then aligned text rest offset
      else (case first_match text (tags ! 0) offset of
              None \<Rightarrow> False
            | Some p \<Rightarrow> aligned text rest (p + length (tags ! 0))))"

text \<open>The positions of the token lines: each line other than \<open>EOS\<close> has the position that
  starts, counted from the offset of the block, at the first place at or after the cursor where
  the text is its surface form, and is as long as the surface form; the cursor moves behind it.\<close>

fun token_positions :: "ustr \<Rightarrow> int \<Rightarrow> ustr list list \<Rightarrow> nat \<Rightarrow> ArticleTextPosition list" where
  "token_positions text text_offset [] offset = []"
| "token_positions text text_offset (tags # rest) offset =
     (if tags = [END_OF_SECTION_MARKER] then token_positions text text_offset rest offset
      else (case first_match text (tags ! 0) offset of
              None \<Rightarrow> []
            | Some p \<Rightarrow>
                \<lparr>start = text_offset + int p, len = length (tags ! 0)\<rparr> #
                token_positions text text_offset rest (p + length (tags ! 0))))"

text \<open>Example data.  The text neko ga hashiru with a space between the words, and the
  chasen output of MeCab for it: one line per word with surface form, reading, base form,
  parts of speech and, for the verb, conjugated type and form, then the \<open>EOS\<close> line.\<close>

definition example_text :: ustr where
  "example_text = [29483, 32, 12364, 32, 36208, 12427]"

definition example_mecab_out :: ustr where
  "example_mecab_out =
     [29483, 9, 12493, 12467, 9, 29483, 9, 21517, 35422, 45, 19968, 33324, 9, 9, 10,
      12364, 9, 12460, 9, 12364, 9, 21161, 35422, 45, 26684, 21161, 35422, 45, 19968, 33324, 9, 9, 10,
      36208, 12427, 9, 12495, 12471, 12523, 9, 36208, 12427, 9, 21205, 35422, 45, 33258, 31435, 9,
        20116, 27573, 12539, 12521, 34892, 9, 22522, 26412, 24418, 10,
      69, 79, 83, 10]"

text \<open>The three length measures of a window against the two bounds of the dictionary: the
  number of items, the summed length of the base forms, the summed length of the first surface
  forms.\<close>

definition within_length_bound :: "nat \<Rightarrow> nat \<Rightarrow> FoundJpnLexicalItem list \<Rightarrow> bool" where
  "within_length_bound md mt window =
     (length window \<le> md \<or>
      sum_list (map (\<lambda>b. length (base_form b)) window) \<le> mt \<or>
      sum_list (map (\<lambda>b. length (get_first_surface_form b)) window) \<le> mt)"

text \<open>The windows \<open>base[i : j + 1]\<close> for \<open>j\<close> from \<open>e\<close> on, up to the first one that is not within
  the bounds.\<close>

definition windows_from :: "nat \<Rightarrow> nat \<Rightarrow> FoundJpnLexicalItem list \<Rightarrow> nat \<Rightarrow> nat
    \<Rightarrow> FoundJpnLexicalItem list list" where
  "windows_from md mt base i e =
     takeWhile (within_length_bound md mt)
       (map (\<lambda>j. take (j + 1 - i) (drop i base)) [e ..< length base])"

text \<open>The item \<open>_lookup_meta_lexical_item\<close> builds for one entry, given the first position of
  the window, the length of the joined surface forms and the three lookup results.\<close>

definition meta_item_of ::
  "ArticleTextPosition \<Rightarrow> nat \<Rightarrow> JMdictEntry list \<Rightarrow> JMdictEntry list \<Rightarrow> JMdictEntry list
     \<Rightarrow> JMdictEntry \<Rightarrow> FoundJpnLexicalItem" where
  "meta_item_of first_pos n d s b entry =
     \<lparr>base_form = text_form entry,
      found_positions = [\<lparr>start = start first_pos, len = n\<rparr>],
      possible_interps =
        [\<lparr>mecab_interp = None,
          jmdict_interp_entry_id = Some (entry_id entry),
          interp_sources =
            (if entry \<in> set d then [JMDICT_MECAB_DECOMP] else []) @
            (if entry \<in> set s then [JMDICT_SURFACE_FORM] else []) @
            (if entry \<in> set b then [JMDICT_BASE_FORM] else [])\<rparr>],
      article = None,
      surface_form_cache = []\<rparr>"

text \<open>Example data.  A dictionary of three entries, tabemono (id 1) and mono twice (ids 2 and
  3), a MeCab that splits tabemono into tabe (base form taberu) and mono, the dictionary as
  loaded from these entries, and the text tabemono followed by a full stop with its three MeCab
  items and the one meta item found in it.\<close>

definition dict_text :: ustr where
  "dict_text = [39135, 12409, 29289, 12290]"

definition dict_mecab :: "ustr \<Rightarrow> ustr" where
  "dict_mecab t =
     (if t = [39135, 12409, 29289, 12290] then
        [39135, 12409, 9, 12479, 12505, 9, 39135, 12409, 12427, 9, 21205, 35422, 45, 33258, 31435, 9,
           19968, 27573, 9, 36899, 29992, 24418, 10,
         29289, 9, 12514, 12494, 9, 29289, 9, 21517, 35422, 45, 19968, 33324, 9, 9, 10,
         12290, 9, 12290, 9, 12290, 9, 35352, 21495, 45, 21477, 28857, 9, 9, 10,
         69, 79, 83, 10]
      else if t = [39135, 12409, 29289] then
        [39135, 12409, 9, 12479, 12505, 9, 39135, 12409, 12427, 9, 21205, 35422, 45, 33258, 31435, 9,
           19968, 27573, 9, 36899, 29992, 24418, 10,
         29289, 9, 12514, 12494, 9, 29289, 9, 21517, 35422, 45, 19968, 33324, 9, 9, 10,
         69, 79, 83, 10]
      else if t = [29289] then
        [29289, 9, 12514, 12494, 9, 29289, 9, 21517, 35422, 45, 19968, 33324, 9, 9, 10,
         69, 79, 83, 10]
      else [69, 79, 83, 10])"

definition dict_entry :: "ustr \<Rightarrow> ustr \<Rightarrow> JMdictEntry" where
  "dict_entry eid tf =
     \<lparr>entry_id = eid, text_form = tf, text_form_info = None, text_form_freq = None,
      entry_parts_of_speech = None, entry_fields = None, dialects = None, misc = None\<rparr>"

definition dict_xml :: "JMdictEntry list list" where
  "dict_xml = [[dict_entry [49] [39135, 12409, 29289]], [dict_entry [50] [29289]],
               [dict_entry [51] [29289]]]"

definition dict_decomp_map :: MecabDecompMap where
  "dict_decomp_map =
     [([[39135, 12409, 12427], [29289]], [dict_entry [49] [39135, 12409, 29289]]),
      ([[29289]], [dict_entry [50] [29289], dict_entry [51] [29289]])]"

definition dict_loaded :: JMdict where
  "dict_loaded =
     \<lparr>p_entry_map =
        Some [([39135, 12409, 29289], [dict_entry [49] [39135, 12409, 29289]]),
              ([29289], [dict_entry [50] [29289], dict_entry [51] [29289]])],
      p_mecab_decomp_map = Some dict_decomp_map,
      p_max_text_form_len = Some 3,
      p_max_mecab_decomp_len = Some 2\<rparr>"

definition base_item ::
  "ustr \<Rightarrow> ustr \<Rightarrow> int \<Rightarrow> ustr list \<Rightarrow> ustr option \<Rightarrow> JpnArticle option \<Rightarrow> FoundJpnLexicalItem" where
  "base_item surface base_f st pos ctype art =
     \<lparr>base_form = base_f,
      found_positions = [\<lparr>start = st, len = length surface\<rparr>],
      possible_interps =
        [\<lparr>mecab_interp =
            Some \<lparr>parts_of_speech = pos, conjugated_type = ctype, conjugated_form = None\<rparr>,
          jmdict_interp_entry_id = None,
          interp_sources = [MECAB]\<rparr>],
      article = art,
      surface_form_cache =
        (if surface = base_f then [] else [(\<lparr>start = st, len = length surface\<rparr>, surface)])\<rparr>"

definition dict_items :: "JpnArticle option \<Rightarrow> FoundJpnLexicalItem list" where
  "dict_items art =
     [base_item [39135, 12409] [39135, 12409, 12427] 0 [[21205, 35422], [33258, 31435]]
        (Some [19968, 27573]) art,
      base_item [29289] [29289] 2 [[21517, 35422], [19968, 33324]] None art,
      base_item [12290] [12290] 3 [[35352, 21495], [21477, 28857]] None art]"

definition dict_meta_item :: "JpnArticle option \<Rightarrow> FoundJpnLexicalItem" where
  "dict_meta_item art =
     \<lparr>base_form = [39135, 12409, 29289],
      found_positions = [\<lparr>start = 0, len = 3\<rparr>],
      possible_interps =
        [\<lparr>mecab_interp = None,
          jmdict_interp_entry_id = Some [49],
          interp_sources = [JMDICT_MECAB_DECOMP, JMDICT_SURFACE_FORM]\<rparr>],
      article = art,
      surface_form_cache = []\<rparr>"

definition dict_article :: JpnArticle where
  "dict_article = \<lparr>full_text = [39135, 12409, 29289, 12290]\<rparr>"

text \<open>A MeCab that gives the same output for every text.\<close>

definition fixed_mecab :: "ustr \<Rightarrow> ustr \<Rightarrow> ustr" where
  "fixed_mecab out t = out"

text \<open>The dictionary that appending each entry of a list under its key builds from a given
  dictionary, and the decomposition \<open>_get_mecab_decomb\<close> returns for a text form (the empty tuple
  stands in where it does not return one).\<close>

definition group_entries :: "(JMdictEntry \<Rightarrow> 'k) \<Rightarrow> JMdictEntry list
    \<Rightarrow> ('k \<times> JMdictEntry list) list \<Rightarrow> ('k \<times> JMdictEntry list) list" where
  "group_entries key es d = fold (\<lambda>e m. dict_append (key e) e m) es d"

definition decomp_of :: "(ustr \<Rightarrow> ustr) \<Rightarrow> ustr \<Rightarrow> ustr list" where
  "decomp_of mecab tf =
     (case parse mecab tf 0 of Some (Inr flis) \<Rightarrow> map base_form flis | _ \<Rightarrow> [])"

text \<open>Every list value of a dictionary is non-empty; every list stored in the shelf database,
  if there is one, is non-empty.\<close>

definition vals_nonempty :: "('k \<times> 'v list) list \<Rightarrow> bool" where
  "vals_nonempty d = (\<forall>k l. map_of d k = Some l \<longrightarrow> l \<noteq> [])"

definition shelf_lists_nonempty :: "shelf_store \<Rightarrow> bool" where
  "shelf_lists_nonempty store =
     (case db_items store of None \<Rightarrow> True | Some items \<Rightarrow> list_all (\<lambda>(k, l). l \<noteq> []) items)"

text \<open>A data directory without a shelf.\<close>

definition no_shelf :: shelf_store where
  "no_shelf = \<lparr>path_mtime = None, db_items = None\<rparr>"

section \<open>The offset loop of the tagger wrapper\<close>

text \<open>When the loop returns, it returns a position at or after the start where the text is
  the surface form.\<close>

lemma adjust_offset_sound:
  assumes "adjust_offset tx surface offset = Some p"
  shows "offset \<le> p \<and> take (length surface) (drop p tx) = surface"
proof (rule adjust_offset.raw_induct
    [where P = "\<lambda>tx surface offset p. offset \<le> p \<and> take (length surface) (drop p tx) = surface",
      OF _ assms])
  fix f :: "ustr \<Rightarrow> ustr \<Rightarrow> nat \<Rightarrow> nat option" and tx surface offset p
  assume IH: "\<And>tx surface offset p. f tx surface offset = Some p \<Longrightarrow>
                offset \<le> p \<and> take (length surface) (drop p tx) = surface"
    and eq: "(if take (length surface) (drop offset tx) \<noteq> surface
              then f tx surface (offset + 1) else Some offset) = Some p"
  show "offset \<le> p \<and> take (length surface) (drop p tx) = surface"
  proof (cases "take (length surface) (drop offset tx) \<noteq> surface")
    case True
    with eq have "f tx surface (offset + 1) = Some p" by simp
    from IH[OF this] show ?thesis by simp
  next
    case False
    with eq show ?thesis by simp
  qed
qed

lemma adjust_offset_diverges:
  assumes "\<forall>p\<ge>offset. take (length surface) (drop p tx) \<noteq> surface"
  shows "adjust_offset tx surface offset = None"
proof (cases "adjust_offset tx surface offset")
  case (Some p)
  from adjust_offset_sound[OF Some] assms show ?thesis by blast
qed simp

lemma adjust_offset_finds:
  assumes "take (length surface) (drop p tx) = surface"
    and "\<forall>q. offset \<le> q \<and> q < p \<longrightarrow> take (length surface) (drop q tx) \<noteq> surface"
    and "offset \<le> p"
  shows "adjust_offset tx surface offset = Some p"
  using assms
proof (induction "p - offset" arbitrary: offset)
  case 0
  then have "offset = p" by simp
  with 0 show ?case by (subst adjust_offset.simps) simp
next
  case (Suc n)
  then have lt: "offset < p" by simp
  with Suc.prems(2) have nm: "take (length surface) (drop offset tx) \<noteq> surface" by simp
  have "adjust_offset tx surface (offset + 1) = Some p"
    using Suc.hyps(1)[of "offset + 1"] Suc.hyps(2) Suc.prems lt by simp
  with nm show ?case by (subst adjust_offset.simps) simp
qed

lemma first_match_Some:
  assumes "first_match tx surface offset = Some p"
  shows "offset \<le> p \<and> take (length surface) (drop p tx) = surface \<and>
         (\<forall>q. offset \<le> q \<and> q < p \<longrightarrow> take (length surface) (drop q tx) \<noteq> surface)"
proof -
  let ?P = "\<lambda>p. take (length surface) (drop p tx) = surface"
  from assms obtain i where i: "i < length [offset ..< Suc (length tx)]"
      "?P ([offset ..< Suc (length tx)] ! i)" "p = [offset ..< Suc (length tx)] ! i"
      "\<forall>j<i. \<not> ?P ([offset ..< Suc (length tx)] ! j)"
    unfolding first_match_def find_Some_iff by blast
  from i(1,3) have p: "p = offset + i" by (simp del: upt_Suc)
  have "\<forall>q. offset \<le> q \<and> q < p \<longrightarrow> \<not> ?P q"
  proof (intro allI impI)
    fix q assume q: "offset \<le> q \<and> q < p"
    then have "q - offset < i" using p by arith
    with i(4) have "\<not> ?P ([offset ..< Suc (length tx)] ! (q - offset))" by blast
    moreover have "[offset ..< Suc (length tx)] ! (q - offset) = q"
      using q p i(1) by (auto simp del: upt_Suc)
    ultimately show "\<not> ?P q" by simp
  qed
  with i(2,3) p show ?thesis by simp
qed

lemma first_match_None:
  assumes "first_match tx surface offset = None" and "surface \<noteq> []"
  shows "\<forall>p\<ge>offset. take (length surface) (drop p tx) \<noteq> surface"
proof (intro allI impI)
  fix p assume p: "offset \<le> p"
  show "take (length surface) (drop p tx) \<noteq> surface"
  proof (cases "p < Suc (length tx)")
    case True
    with p have "p \<in> set [offset ..< Suc (length tx)]" by (simp del: upt_Suc)
    with assms(1) show ?thesis unfolding first_match_def find_None_iff by blast
  next
    case False
    then have "drop p tx = []" by simp
    with assms(2) show ?thesis by auto
  qed
qed

lemma adjust_offset_first_match_Some:
  "first_match tx surface offset = Some p \<Longrightarrow> adjust_offset tx surface offset = Some p"
  using first_match_Some[of tx surface offset p] adjust_offset_finds[of surface p tx offset]
  by blast

lemma adjust_offset_first_match_None:
  "first_match tx surface offset = None \<Longrightarrow> surface \<noteq> [] \<Longrightarrow>
     adjust_offset tx surface offset = None"
  using first_match_None[of tx surface offset] adjust_offset_diverges[of offset surface tx]
  by blast

lemma adjust_offset_hit:
  "take (length surface) (drop offset tx) = surface \<Longrightarrow>
     adjust_offset tx surface offset = Some offset"
  by (subst adjust_offset.simps) simp

lemma adjust_offset_miss:
  "take (length surface) (drop offset tx) \<noteq> surface \<Longrightarrow>
     adjust_offset tx surface offset = adjust_offset tx surface (Suc offset)"
  by (subst adjust_offset.simps) simp

section \<open>Conjugation tags of a six-tag line\<close>

text \<open>
  Claim C2.  For a tagger output line parsed with exactly six tokens, the MeCab interpretation
  should carry the conjugated type of column 4 and the conjugated form of column 5.  The code
  does not: on the six tags of the verb hashiru (surface, reading, base form,
  doushi-jiritsu, godan-ra-gyou, kihonkei) the interpretation built by
  \<open>_create_mecab_interp\<close> has the conjugated type of column 4 and no conjugated form, because
  the assignment made for six tags is overwritten by the one for five or more tags.
\<close>

theorem create_mecab_interp_six_tags_no_conjugated_form:
  "create_mecab_interp
     [[36208, 12427], [12495, 12471, 12523], [36208, 12427], [21205, 35422, 45, 33258, 31435],
      [20116, 27573, 12539, 12521, 34892], [22522, 26412, 24418]] =
   Inr \<lparr>mecab_interp =
          Some \<lparr>parts_of_speech = [[21205, 35422], [33258, 31435]],
                conjugated_type = Some [20116, 27573, 12539, 12521, 34892],
                conjugated_form = None\<rparr>,
        jmdict_interp_entry_id = None,
        interp_sources = [MECAB]\<rparr>"
  by (simp add: create_mecab_interp_def py_split_def POS_SPLITTER_def)

section \<open>The token loop of the tagger wrapper\<close>

lemma parse_loop_eos:
  "parse_loop tx toff ([END_OF_SECTION_MARKER] # rest) offset found =
     parse_loop tx toff rest offset found"
  by simp

lemma eos_line_iff:
  "(length tags = Suc 0 \<and> tags ! 0 = END_OF_SECTION_MARKER) = (tags = [END_OF_SECTION_MARKER])"
  by (cases tags) auto

lemma parse_loop_bad_count:
  assumes "tags \<noteq> [END_OF_SECTION_MARKER]" and "length tags \<notin> EXPECTED_TOKEN_TAG_COUNTS"
  shows "parse_loop tx toff (tags # rest) offset found = Some (Inl TextAnalysisError)"
  using assms by (simp add: eos_line_iff)

lemma counts_not_eos:
  "length tags \<in> EXPECTED_TOKEN_TAG_COUNTS \<Longrightarrow> tags \<noteq> [END_OF_SECTION_MARKER]"
  by (auto simp: EXPECTED_TOKEN_TAG_COUNTS_def)

lemma create_mecab_interp_accepted:
  "length tags \<in> EXPECTED_TOKEN_TAG_COUNTS \<Longrightarrow> \<exists>interp. create_mecab_interp tags = Inr interp"
  by (auto simp: EXPECTED_TOKEN_TAG_COUNTS_def create_mecab_interp_def Let_def)

lemma create_found_lexical_item_accepted:
  assumes "length tags \<in> EXPECTED_TOKEN_TAG_COUNTS"
  shows "\<exists>fli. create_found_lexical_item tags interp off = Inr fli \<and>
           base_form fli = tags ! 2 \<and>
           found_positions fli = [\<lparr>start = off, len = length (tags ! 0)\<rparr>] \<and>
           possible_interps fli = [interp] \<and>
           get_first_surface_form fli = tags ! 0"
  using assms
  by (auto simp: EXPECTED_TOKEN_TAG_COUNTS_def create_found_lexical_item_def Let_def
      cache_surface_form_def get_first_surface_form_def)

lemma parse_loop_accepted:
  assumes "length tags \<in> EXPECTED_TOKEN_TAG_COUNTS"
    and "first_match tx (tags ! 0) offset = Some p"
  shows "\<exists>fli interp. create_mecab_interp tags = Inr interp \<and>
           base_form fli = tags ! 2 \<and>
           found_positions fli = [\<lparr>start = toff + int p, len = length (tags ! 0)\<rparr>] \<and>
           possible_interps fli = [interp] \<and>
           get_first_surface_form fli = tags ! 0 \<and>
           parse_loop tx toff (tags # rest) offset found =
             parse_loop tx toff rest (p + length (tags ! 0)) (found @ [fli])"
proof -
  from create_mecab_interp_accepted[OF assms(1)] obtain interp
    where i: "create_mecab_interp tags = Inr interp" by blast
  from create_found_lexical_item_accepted[OF assms(1), of interp "toff + int p"] obtain fli
    where f: "create_found_lexical_item tags interp (toff + int p) = Inr fli"
      "base_form fli = tags ! 2"
      "found_positions fli = [\<lparr>start = toff + int p, len = length (tags ! 0)\<rparr>]"
      "possible_interps fli = [interp]" "get_first_surface_form fli = tags ! 0"
    by blast
  have "parse_loop tx toff (tags # rest) offset found =
          parse_loop tx toff rest (p + length (tags ! 0)) (found @ [fli])"
    using assms(1) counts_not_eos[OF assms(1)] adjust_offset_first_match_Some[OF assms(2)] i f(1)
    by (simp add: eos_line_iff)
  with i f show ?thesis by blast
qed

lemma parse_loop_misaligned:
  assumes "length tags \<in> EXPECTED_TOKEN_TAG_COUNTS"
    and "tags ! 0 \<noteq> []"
    and "first_match tx (tags ! 0) offset = None"
  shows "parse_loop tx toff (tags # rest) offset found = None"
  using assms(1) counts_not_eos[OF assms(1)] adjust_offset_first_match_None[OF assms(3,2)]
  by (simp add: eos_line_iff)

lemma parse_loop_all_accepted:
  assumes "\<forall>tags\<in>set toks. tags = [END_OF_SECTION_MARKER] \<or> length tags \<in> EXPECTED_TOKEN_TAG_COUNTS"
    and "aligned tx toks offset"
  shows "\<exists>flis. parse_loop tx toff toks offset found = Some (Inr (found @ flis)) \<and>
           map base_form flis = map (\<lambda>tags. tags ! 2) (filter (\<lambda>tags. tags \<noteq> [END_OF_SECTION_MARKER]) toks)"
  using assms
proof (induction toks arbitrary: offset found)
  case Nil
  then show ?case by simp
next
  case (Cons tags rest)
  show ?case
  proof (cases "tags = [END_OF_SECTION_MARKER]")
    case True
    with Cons.prems have "aligned tx rest offset" by simp
    from Cons.IH[OF _ this, of found] Cons.prems(1) True show ?thesis by simp
  next
    case False
    with Cons.prems(1) have cnt: "length tags \<in> EXPECTED_TOKEN_TAG_COUNTS" by simp
    from Cons.prems(2) False obtain p where p: "first_match tx (tags ! 0) offset = Some p"
      "aligned tx rest (p + length (tags ! 0))"
      by (auto split: option.splits)
    from parse_loop_accepted[OF cnt p(1), of toff rest found] obtain fli where
      f: "base_form fli = tags ! 2"
         "parse_loop tx toff (tags # rest) offset found =
            parse_loop tx toff rest (p + length (tags ! 0)) (found @ [fli])"
      by blast
    from Cons.IH[OF _ p(2), of "found @ [fli]"] Cons.prems(1) obtain flis where
      "parse_loop tx toff rest (p + length (tags ! 0)) (found @ [fli]) =
         Some (Inr ((found @ [fli]) @ flis))"
      "map base_form flis =
         map (\<lambda>tags. tags ! 2) (filter (\<lambda>tags. tags \<noteq> [END_OF_SECTION_MARKER]) rest)"
      by auto
    with f False have "parse_loop tx toff (tags # rest) offset found = Some (Inr (found @ (fli # flis))) \<and>
       map base_form (fli # flis) =
         map (\<lambda>tags. tags ! 2) (filter (\<lambda>tags. tags \<noteq> [END_OF_SECTION_MARKER]) (tags # rest))"
      by simp
    then show ?thesis by blast
  qed
qed

lemma parse_loop_first_bad:
  assumes "\<forall>tags\<in>set pre. tags = [END_OF_SECTION_MARKER] \<or> length tags \<in> EXPECTED_TOKEN_TAG_COUNTS"
    and "aligned tx pre offset"
    and "bad \<noteq> [END_OF_SECTION_MARKER]" and "length bad \<notin> EXPECTED_TOKEN_TAG_COUNTS"
  shows "parse_loop tx toff (pre @ bad # post) offset found = Some (Inl TextAnalysisError)"
  using assms(1,2)
proof (induction pre arbitrary: offset found)
  case Nil
  show ?case using parse_loop_bad_count[OF assms(3,4)] by simp
next
  case (Cons tags rest)
  show ?case
  proof (cases "tags = [END_OF_SECTION_MARKER]")
    case True
    with Cons.prems have "aligned tx rest offset" by simp
    from Cons.IH[OF _ this, of found] Cons.prems(1) True show ?thesis by simp
  next
    case False
    with Cons.prems(1) have cnt: "length tags \<in> EXPECTED_TOKEN_TAG_COUNTS" by simp
    from Cons.prems(2) False obtain p where p: "first_match tx (tags ! 0) offset = Some p"
      "aligned tx rest (p + length (tags ! 0))"
      by (auto split: option.splits)
    from parse_loop_accepted[OF cnt p(1), of toff "rest @ bad # post" found] obtain fli where
      f: "parse_loop tx toff (tags # rest @ bad # post) offset found =
            parse_loop tx toff (rest @ bad # post) (p + length (tags ! 0)) (found @ [fli])"
      by blast
    from Cons.IH[OF _ p(2), of "found @ [fli]"] Cons.prems(1) f show ?thesis by simp
  qed
qed

lemmas split_simps = parse_mecab_output_def splitlines_def line_boundary_def
      py_split_def TOKEN_SPLITTER_def adjust_if_known_problem_def ADJUST_TAGS_MAP_def


lemma example_tokens:
  "parse_mecab_output example_mecab_out =
   [[[29483], [12493, 12467], [29483], [21517, 35422, 45, 19968, 33324]],
    [[12364], [12460], [12364], [21161, 35422, 45, 26684, 21161, 35422, 45, 19968, 33324]],
    [[36208, 12427], [12495, 12471, 12523], [36208, 12427], [21205, 35422, 45, 33258, 31435],
      [20116, 27573, 12539, 12521, 34892], [22522, 26412, 24418]],
    [[69, 79, 83]]]"
  by (simp add: example_mecab_out_def parse_mecab_output_def splitlines_def line_boundary_def
      py_split_def TOKEN_SPLITTER_def adjust_if_known_problem_def ADJUST_TAGS_MAP_def)

lemma first_match_example: "first_match example_text [12364] 1 = Some 2"
  by (simp add: first_match_def example_text_def)

lemma example_aligned: "aligned example_text (parse_mecab_output example_mecab_out) 0"
  unfolding example_tokens
  by (simp add: first_match_def example_text_def END_OF_SECTION_MARKER_def)

lemma short_line_tokens:
  "parse_mecab_output [97, 9, 120, 9, 121, 9, 122, 10, 98, 9, 120, 10] =
     [[[97], [120], [121], [122]]] @ [[98], [120]] # []"
  by (simp add: split_simps)


section \<open>Cursor and positions\<close>

lemma parse_loop_positions:
  assumes "\<forall>tags\<in>set toks. tags = [END_OF_SECTION_MARKER] \<or> length tags \<in> EXPECTED_TOKEN_TAG_COUNTS"
    and "aligned tx toks offset"
  shows "\<exists>flis. parse_loop tx toff toks offset found = Some (Inr (found @ flis)) \<and>
           map found_positions flis = map (\<lambda>p. [p]) (token_positions tx toff toks offset)"
  using assms
proof (induction toks arbitrary: offset found)
  case Nil
  then show ?case by simp
next
  case (Cons tags rest)
  show ?case
  proof (cases "tags = [END_OF_SECTION_MARKER]")
    case True
    with Cons.prems have "aligned tx rest offset" by simp
    from Cons.IH[OF _ this, of found] Cons.prems(1) True show ?thesis by simp
  next
    case False
    with Cons.prems(1) have cnt: "length tags \<in> EXPECTED_TOKEN_TAG_COUNTS" by simp
    from Cons.prems(2) False obtain p where p: "first_match tx (tags ! 0) offset = Some p"
      "aligned tx rest (p + length (tags ! 0))"
      by (auto split: option.splits)
    from parse_loop_accepted[OF cnt p(1), of toff rest found] obtain fli where
      f: "found_positions fli = [\<lparr>start = toff + int p, len = length (tags ! 0)\<rparr>]"
         "parse_loop tx toff (tags # rest) offset found =
            parse_loop tx toff rest (p + length (tags ! 0)) (found @ [fli])"
      by blast
    from Cons.IH[OF _ p(2), of "found @ [fli]"] Cons.prems(1) obtain flis where
      "parse_loop tx toff rest (p + length (tags ! 0)) (found @ [fli]) =
         Some (Inr ((found @ [fli]) @ flis))"
      "map found_positions flis =
         map (\<lambda>p. [p]) (token_positions tx toff rest (p + length (tags ! 0)))"
      by auto
    with f False p(1) have "parse_loop tx toff (tags # rest) offset found =
         Some (Inr (found @ (fli # flis))) \<and>
       map found_positions (fli # flis) =
         map (\<lambda>p. [p]) (token_positions tx toff (tags # rest) offset)"
      by simp
    then show ?thesis by blast
  qed
qed


lemma example_parse_positions:
  "map_option (map_sum id (map found_positions))
     (parse (\<lambda>_. example_mecab_out) example_text 0) =
   Some (Inr [[\<lparr>start = 0, len = 1\<rparr>], [\<lparr>start = 2, len = 1\<rparr>], [\<lparr>start = 4, len = 2\<rparr>]])"
  unfolding parse_def example_tokens
  by (simp add: example_text_def adjust_offset_hit adjust_offset_miss END_OF_SECTION_MARKER_def
      EXPECTED_TOKEN_TAG_COUNTS_def create_mecab_interp_def create_found_lexical_item_def
      cache_surface_form_def py_split_def POS_SPLITTER_def Let_def)


lemma example_accepted:
  "\<forall>tags\<in>set (parse_mecab_output example_mecab_out).
      tags = [END_OF_SECTION_MARKER] \<or> length tags \<in> EXPECTED_TOKEN_TAG_COUNTS"
  unfolding example_tokens
  by (simp add: END_OF_SECTION_MARKER_def EXPECTED_TOKEN_TAG_COUNTS_def)

lemma example_token_positions:
  "token_positions example_text 10 (parse_mecab_output example_mecab_out) 0 =
     [\<lparr>start = 10, len = 1\<rparr>, \<lparr>start = 12, len = 1\<rparr>, \<lparr>start = 14, len = 2\<rparr>]"
  unfolding example_tokens
  by (simp add: first_match_def example_text_def END_OF_SECTION_MARKER_def)


text \<open>
  Claim C6.  For an accepted token line (4, 5 or 6 tags) whose surface form occurs in the text at
  or after the cursor, let \<open>p\<close> be the first such position.  Then \<open>p\<close> is at or after the cursor,
  the text at \<open>p\<close> is the surface form, no position between the cursor and \<open>p\<close> has it, the item
  built for the line has the single position \<open>(text_offset + p, len(col0))\<close> counted in code
  points, the loop goes on with the cursor at \<open>p + len(col0)\<close>, and when the line is the last one
  the loop returns the items found so far followed by this item.  For a whole tagger output
  whose lines are all accepted or \<open>EOS\<close> and whose surface forms are all found, \<open>parse\<close> returns
  items whose position lists are, in order, the single positions of the token lines, each
  starting at the first match at or after the cursor and as long as its surface form.  For the
  example text parsed at offset 0 with MeCab's three token lines, the three items have the
  positions (0, 1), (2, 1) and (4, 2).
\<close>

theorem parse_cursor_positions:
  "(length tags \<in> EXPECTED_TOKEN_TAG_COUNTS \<and> first_match tx (tags ! 0) offset = Some p \<longrightarrow>
      offset \<le> p \<and> take (length (tags ! 0)) (drop p tx) = tags ! 0 \<and>
      (\<forall>q. offset \<le> q \<and> q < p \<longrightarrow> take (length (tags ! 0)) (drop q tx) \<noteq> tags ! 0) \<and>
      (\<exists>fli. found_positions fli = [\<lparr>start = text_offset + int p, len = length (tags ! 0)\<rparr>] \<and>
             parse_loop tx text_offset (tags # rest) offset found =
               parse_loop tx text_offset rest (p + length (tags ! 0)) (found @ [fli]) \<and>
             parse_loop tx text_offset [tags] offset found = Some (Inr (found @ [fli])))) \<and>
   (parse_mecab_output (mecab tx) = toks \<and>
    (\<forall>tags\<in>set toks. tags = [END_OF_SECTION_MARKER] \<or> length tags \<in> EXPECTED_TOKEN_TAG_COUNTS) \<and>
    aligned tx toks 0 \<longrightarrow>
      (\<exists>flis. parse mecab tx text_offset = Some (Inr flis) \<and>
         map found_positions flis = map (\<lambda>p. [p]) (token_positions tx text_offset toks 0))) \<and>
   map_option (map_sum id (map found_positions))
     (parse (\<lambda>_. example_mecab_out) example_text 0) =
   Some (Inr [[\<lparr>start = 0, len = 1\<rparr>], [\<lparr>start = 2, len = 1\<rparr>], [\<lparr>start = 4, len = 2\<rparr>]])"
proof -
  have a: "offset \<le> p \<and> take (length (tags ! 0)) (drop p tx) = tags ! 0 \<and>
      (\<forall>q. offset \<le> q \<and> q < p \<longrightarrow> take (length (tags ! 0)) (drop q tx) \<noteq> tags ! 0) \<and>
      (\<exists>fli. found_positions fli = [\<lparr>start = text_offset + int p, len = length (tags ! 0)\<rparr>] \<and>
             parse_loop tx text_offset (tags # rest) offset found =
               parse_loop tx text_offset rest (p + length (tags ! 0)) (found @ [fli]) \<and>
             parse_loop tx text_offset [tags] offset found = Some (Inr (found @ [fli])))"
    if h: "length tags \<in> EXPECTED_TOKEN_TAG_COUNTS" "first_match tx (tags ! 0) offset = Some p"
  proof -
    from h(2) obtain c interp where c: "create_mecab_interp tags = Inr interp"
      using create_mecab_interp_accepted[OF h(1)] by blast
    from create_found_lexical_item_accepted[OF h(1), of interp "text_offset + int p"] obtain fli
      where f: "create_found_lexical_item tags interp (text_offset + int p) = Inr fli"
        "found_positions fli = [\<lparr>start = text_offset + int p, len = length (tags ! 0)\<rparr>]"
      by blast
    have step: "parse_loop tx text_offset (tags # r) offset found =
            parse_loop tx text_offset r (p + length (tags ! 0)) (found @ [fli])" for r
      using h(1) counts_not_eos[OF h(1)] adjust_offset_first_match_Some[OF h(2)] c f(1)
      by (simp add: eos_line_iff)
    from step[of rest] step[of "[]"] f(2) first_match_Some[OF h(2)] show ?thesis
      by auto
  qed
  have b: "\<exists>flis. parse mecab tx text_offset = Some (Inr flis) \<and>
         map found_positions flis = map (\<lambda>p. [p]) (token_positions tx text_offset toks 0)"
    if "parse_mecab_output (mecab tx) = toks"
      "\<forall>tags\<in>set toks. tags = [END_OF_SECTION_MARKER] \<or> length tags \<in> EXPECTED_TOKEN_TAG_COUNTS"
      "aligned tx toks 0"
    using parse_loop_positions[OF that(2,3), of text_offset "[]"] that(1)
    by (simp add: parse_def)
  from a b example_parse_positions show ?thesis by blast
qed


text \<open>The token ga of the example, looked for from cursor 1 in a block at offset 10: found
  at 2, and the loop returns the item with position (12, 1).  The whole example at offset 10
  gives the positions (10, 1), (12, 1) and (14, 2).\<close>

theorem parse_cursor_positions_witness:
  "length [[12364], [12460], [12364], [21161, 35422]] \<in> EXPECTED_TOKEN_TAG_COUNTS \<and>
   first_match example_text ([[12364], [12460], [12364], [21161, 35422]] ! 0) 1 = Some 2 \<and>
   (\<exists>fli. found_positions fli = [\<lparr>start = 12, len = 1\<rparr>] \<and>
      parse_loop example_text 10 [[[12364], [12460], [12364], [21161, 35422]]] 1 [] =
        Some (Inr [fli])) \<and>
   aligned example_text (parse_mecab_output example_mecab_out) 0 \<and>
   (\<exists>flis. parse (\<lambda>_. example_mecab_out) example_text 10 = Some (Inr flis) \<and>
      map found_positions flis =
        [[\<lparr>start = 10, len = 1\<rparr>], [\<lparr>start = 12, len = 1\<rparr>], [\<lparr>start = 14, len = 2\<rparr>]])"
proof -
  have c: "length [[12364 :: nat], [12460], [12364], [21161, 35422]] \<in> EXPECTED_TOKEN_TAG_COUNTS"
    by (simp add: EXPECTED_TOKEN_TAG_COUNTS_def)
  have m: "first_match example_text ([[12364], [12460], [12364], [21161, 35422]] ! 0) 1 = Some 2"
    using first_match_example by simp
  from parse_cursor_positions[of "[[12364], [12460], [12364], [21161, 35422]]" example_text 1 2
      10 "[]" "[]" "\<lambda>_. example_mecab_out" "parse_mecab_output example_mecab_out"] c m
  have s: "\<exists>fli. found_positions fli = [\<lparr>start = 12, len = 1\<rparr>] \<and>
      parse_loop example_text 10 [[[12364], [12460], [12364], [21161, 35422]]] 1 [] =
        Some (Inr [fli])"
    by auto
  from parse_cursor_positions[of "[[12364], [12460], [12364], [21161, 35422]]" example_text 1 2
      10 "[]" "[]" "\<lambda>_. example_mecab_out" "parse_mecab_output example_mecab_out"]
    example_accepted example_aligned
  have w: "\<exists>flis. parse (\<lambda>_. example_mecab_out) example_text 10 = Some (Inr flis) \<and>
      map found_positions flis =
        map (\<lambda>p. [p]) (token_positions example_text 10 (parse_mecab_output example_mecab_out) 0)"
    by blast
  from c m s w example_aligned show ?thesis by (simp add: example_token_positions)
qed


section \<open>A surface form that is not in the text\<close>

text \<open>
  Claim C3.  When the surface form of a token does not occur in the text at or after the
  cursor, \<open>parse\<close> should raise \<open>TextAnalysisError\<close>.  The code does not: for the text ab and
  the two four-tag lines with surface forms a and c, the first token is found at 0, the second
  surface form does not occur from cursor 1 on, and the run of \<open>parse\<close> never returns, so it
  raises nothing.
\<close>

theorem parse_misaligned_surface_form_never_returns:
  "parse_mecab_output [97, 9, 120, 9, 121, 9, 122, 10, 99, 9, 120, 9, 121, 9, 122, 10] =
     [[[97], [120], [121], [122]], [[99], [120], [121], [122]]] \<and>
   first_match [97, 98] [97] 0 = Some 0 \<and>
   first_match [97, 98] [99] 1 = None \<and>
   parse (\<lambda>_. [97, 9, 120, 9, 121, 9, 122, 10, 99, 9, 120, 9, 121, 9, 122, 10]) [97, 98] 0 = None"
proof -
  have toks: "parse_mecab_output [97, 9, 120, 9, 121, 9, 122, 10, 99, 9, 120, 9, 121, 9, 122, 10] =
     [[[97], [120], [121], [122]], [[99], [120], [121], [122]]]"
    by (simp add: split_simps)
  have m0: "first_match [97, 98] [97] 0 = Some 0" by (simp add: first_match_def)
  have m1: "first_match [97, 98] [99] 1 = None" by (simp add: first_match_def)
  have c: "length [[97::nat], [120], [121], [122]] \<in> EXPECTED_TOKEN_TAG_COUNTS"
    "length [[99::nat], [120], [121], [122]] \<in> EXPECTED_TOKEN_TAG_COUNTS"
    by (simp_all add: EXPECTED_TOKEN_TAG_COUNTS_def)
  from parse_loop_accepted[OF c(1), of "[97, 98]" 0 0 0 "[[[99], [120], [121], [122]]]" "[]"] m0
  obtain fli where "parse_loop [97, 98] 0 [[[97], [120], [121], [122]], [[99], [120], [121], [122]]] 0 [] =
      parse_loop [97, 98] 0 [[[99], [120], [121], [122]]] 1 [fli]"
    by auto
  moreover have "parse_loop [97, 98] 0 [[[99], [120], [121], [122]]] 1 [fli] = None"
    using parse_loop_misaligned[OF c(2), of "[97, 98]" 1 0 "[]" "[fli]"] m1 by simp
  ultimately show ?thesis using toks m0 m1 by (simp add: parse_def)
qed


section \<open>The token count of a line\<close>

text \<open>The count check when every surface form is found.  If every line is the \<open>EOS\<close> line or
  has 4, 5 or 6 tokens, and the surface form of every token line occurs in the text at or after
  the cursor, then \<open>parse\<close> returns exactly one item per line other than \<open>EOS\<close>, in order, whose
  base form is column 2 of its line.  If a line other than \<open>EOS\<close> has any other token count,
  and the lines before it are as above, then \<open>parse\<close> raises \<open>TextAnalysisError\<close>.\<close>

lemma parse_token_count_gate:
  "(parse_mecab_output (mecab tx) = toks \<and>
    (\<forall>tags\<in>set toks. tags = [END_OF_SECTION_MARKER] \<or> length tags \<in> EXPECTED_TOKEN_TAG_COUNTS) \<and>
    aligned tx toks 0 \<longrightarrow>
      (\<exists>flis. parse mecab tx toff = Some (Inr flis) \<and>
         map base_form flis =
           map (\<lambda>tags. tags ! 2) (filter (\<lambda>tags. tags \<noteq> [END_OF_SECTION_MARKER]) toks))) \<and>
   (parse_mecab_output (mecab tx) = pre @ bad # post \<and>
    (\<forall>tags\<in>set pre. tags = [END_OF_SECTION_MARKER] \<or> length tags \<in> EXPECTED_TOKEN_TAG_COUNTS) \<and>
    aligned tx pre 0 \<and> bad \<noteq> [END_OF_SECTION_MARKER] \<and>
    length bad \<notin> EXPECTED_TOKEN_TAG_COUNTS \<longrightarrow>
      parse mecab tx toff = Some (Inl TextAnalysisError))"
proof -
  have a: "\<exists>flis. parse mecab tx toff = Some (Inr flis) \<and>
         map base_form flis =
           map (\<lambda>tags. tags ! 2) (filter (\<lambda>tags. tags \<noteq> [END_OF_SECTION_MARKER]) toks)"
    if "parse_mecab_output (mecab tx) = toks"
      "\<forall>tags\<in>set toks. tags = [END_OF_SECTION_MARKER] \<or> length tags \<in> EXPECTED_TOKEN_TAG_COUNTS"
      "aligned tx toks 0"
    using parse_loop_all_accepted[OF that(2,3), of toff "[]"] that(1) by (simp add: parse_def)
  have b: "parse mecab tx toff = Some (Inl TextAnalysisError)"
    if "parse_mecab_output (mecab tx) = pre @ bad # post"
      "\<forall>tags\<in>set pre. tags = [END_OF_SECTION_MARKER] \<or> length tags \<in> EXPECTED_TOKEN_TAG_COUNTS"
      "aligned tx pre 0" "bad \<noteq> [END_OF_SECTION_MARKER]"
      "length bad \<notin> EXPECTED_TOKEN_TAG_COUNTS"
    using parse_loop_first_bad[OF that(2,3,4,5), of toff post "[]"] that(1) by (simp add: parse_def)
  from a b show ?thesis by blast
qed

text \<open>The example text returns its three items, and a two-token line after an accepted line
  raises the error.\<close>

lemma parse_token_count_gate_example:
  "(\<exists>flis. parse (\<lambda>_. example_mecab_out) example_text 0 = Some (Inr flis) \<and>
      map base_form flis = [[29483], [12364], [36208, 12427]]) \<and>
   parse (\<lambda>_. [97, 9, 120, 9, 121, 9, 122, 10, 98, 9, 120, 10]) [97, 98] 0 =
     Some (Inl TextAnalysisError)"
proof -
  have al: "aligned [97, 98] [[[97], [120], [121], [122]]] 0"
    by (simp add: first_match_def END_OF_SECTION_MARKER_def)
  have g1: "\<forall>tags\<in>set (parse_mecab_output example_mecab_out).
              tags = [END_OF_SECTION_MARKER] \<or> length tags \<in> EXPECTED_TOKEN_TAG_COUNTS"
    unfolding example_tokens
    by (simp add: END_OF_SECTION_MARKER_def EXPECTED_TOKEN_TAG_COUNTS_def)
  have g2: "\<forall>tags\<in>set [[[97::nat], [120], [121], [122]]].
              tags = [END_OF_SECTION_MARKER] \<or> length tags \<in> EXPECTED_TOKEN_TAG_COUNTS"
    by (simp add: EXPECTED_TOKEN_TAG_COUNTS_def)
  have bad: "[[98::nat], [120]] \<noteq> [END_OF_SECTION_MARKER]"
    "length [[98::nat], [120]] \<notin> EXPECTED_TOKEN_TAG_COUNTS"
    by (simp_all add: EXPECTED_TOKEN_TAG_COUNTS_def)
  have filt: "map (\<lambda>tags. tags ! 2)
      (filter (\<lambda>tags. tags \<noteq> [END_OF_SECTION_MARKER]) (parse_mecab_output example_mecab_out)) =
      [[29483], [12364], [36208, 12427]]"
    unfolding example_tokens by (simp add: END_OF_SECTION_MARKER_def)
  show ?thesis
    using parse_token_count_gate[of "\<lambda>_. example_mecab_out" example_text
        "parse_mecab_output example_mecab_out" 0 "[]" "[]" "[]"]
      parse_token_count_gate[of "\<lambda>_. [97, 9, 120, 9, 121, 9, 122, 10, 98, 9, 120, 10]" "[97, 98]"
        "[]" 0 "[[[97], [120], [121], [122]]]" "[[98], [120]]" "[]"]
      example_aligned g1 g2 al bad short_line_tokens filt
    by simp
qed

text \<open>
  Claim C7.  A line with 4, 5 or 6 tokens should be accepted and produce one item, and for a
  line with any other token count \<open>parse\<close> should raise \<open>TextAnalysisError\<close> for the whole text.
  The code does not whenever the surface form of an accepted line is not in the text at or
  after the cursor: for the text a and the tagger output of a four-token line with surface form
  b followed by a two-token line, the first line passes the count check, its surface form is
  not found, and the run of \<open>parse\<close> never returns; it produces no item for the first line and
  raises no error for the second.
\<close>

theorem parse_bad_count_after_misaligned_line_never_returns:
  "parse_mecab_output [98, 9, 120, 9, 121, 9, 122, 10, 99, 9, 120, 10] =
     [[[98], [120], [121], [122]], [[99], [120]]] \<and>
   length [[98 :: nat], [120], [121], [122]] \<in> EXPECTED_TOKEN_TAG_COUNTS \<and>
   length [[99 :: nat], [120]] \<notin> EXPECTED_TOKEN_TAG_COUNTS \<and>
   first_match [97] [98] 0 = None \<and>
   parse (fixed_mecab [98, 9, 120, 9, 121, 9, 122, 10, 99, 9, 120, 10]) [97] 0 = None"
proof -
  have toks: "parse_mecab_output [98, 9, 120, 9, 121, 9, 122, 10, 99, 9, 120, 10] =
     [[[98], [120], [121], [122]], [[99], [120]]]"
    by (simp add: split_simps)
  have c: "length [[98 :: nat], [120], [121], [122]] \<in> EXPECTED_TOKEN_TAG_COUNTS"
    "length [[99 :: nat], [120]] \<notin> EXPECTED_TOKEN_TAG_COUNTS"
    by (simp_all add: EXPECTED_TOKEN_TAG_COUNTS_def)
  have m: "first_match [97] [98] 0 = None" by (simp add: first_match_def)
  have "parse_loop [97] 0 [[[98], [120], [121], [122]], [[99], [120]]] 0 [] = None"
    using parse_loop_misaligned[OF c(1), of "[97]" 0 0 "[[[99], [120]]]" "[]"] m by simp
  with toks c m show ?thesis by (simp add: parse_def fixed_mecab_def)
qed

section \<open>The symbol test and the loops of the meta-item finder\<close>

lemma is_symbol_interps_iff:
  "is_symbol_interps interps =
     (\<exists>interp\<in>set interps. \<exists>m. mecab_interp interp = Some m \<and>
         SYMBOL_PART_OF_SPEECH \<in> set (parts_of_speech m))"
  by (induction interps) (auto simp: list_ex_iff split: option.splits)

lemma is_symbol_iff:
  "is_symbol fli =
     (\<exists>interp\<in>set (possible_interps fli). \<exists>m. mecab_interp interp = Some m \<and>
         SYMBOL_PART_OF_SPEECH \<in> set (parts_of_speech m))"
  by (simp add: is_symbol_def is_symbol_interps_iff)

lemma find_meta_inner_all:
  "\<forall>w items. lookup w = Inr items \<longrightarrow> (\<forall>x\<in>set items. P x) \<Longrightarrow>
   \<forall>x\<in>set acc. P x \<Longrightarrow> find_meta_inner jm lookup base s e acc = Inr r \<Longrightarrow>
     \<forall>x\<in>set r. P x"
proof (induction jm lookup base s e acc rule: find_meta_inner.induct)
  case (1 jm lookup base s e acc)
  note unf = find_meta_inner.simps[of jm lookup base s e acc]
  show ?case
  proof (cases "e < length base")
    case False
    with "1.prems" show ?thesis by (simp add: unf)
  next
    case True
    let ?w = "take (e + 1 - s) (drop s base)"
    from "1.prems"(3) True obtain b where b: "within_jmdict_max_entry_len jm ?w = Inr b"
      by (auto simp: unf Let_def split: sum.splits)
    show ?thesis
    proof (cases b)
      case False
      with "1.prems" True b show ?thesis by (simp add: unf Let_def)
    next
      case bt: True
      from "1.prems"(3) True b bt obtain items where it: "lookup ?w = Inr items"
        by (auto simp: unf Let_def split: sum.splits)
      with "1.prems"(3) True b bt
      have r: "find_meta_inner jm lookup base s (e + 1) (acc @ items) = Inr r"
        by (simp add: unf Let_def)
      from "1.prems"(1) it "1.prems"(2) have "\<forall>x\<in>set (acc @ items). P x" by auto
      from "1.IH"[OF True refl b _ it "1.prems"(1) this r] bt show ?thesis by simp
    qed
  qed
qed

lemma find_meta_outer_all:
  "\<forall>w items. lookup w = Inr items \<longrightarrow> (\<forall>x\<in>set items. P x) \<Longrightarrow>
   \<forall>x\<in>set acc. P x \<Longrightarrow> find_meta_outer jm lookup base s acc = Inr r \<Longrightarrow>
     \<forall>x\<in>set r. P x"
proof (induction jm lookup base s acc rule: find_meta_outer.induct)
  case (1 jm lookup base s acc)
  note unf = find_meta_outer.simps[of jm lookup base s acc]
  show ?case
  proof (cases "s < length base")
    case False
    with "1.prems" show ?thesis by (simp add: unf)
  next
    case True
    from "1.prems"(3) True obtain acc1 where
      a: "find_meta_inner jm lookup base s (s + 1) acc = Inr acc1"
      and r: "find_meta_outer jm lookup base (s + 1) acc1 = Inr r"
      by (auto simp: unf split: sum.splits)
    from find_meta_inner_all[OF "1.prems"(1,2) a]
    have "\<forall>x\<in>set acc1. P x" .
    from "1.IH"[OF True a "1.prems"(1) this r] show ?thesis .
  qed
qed

lemma unique_fold_set:
  "set (fold (\<lambda>x seen. if x \<in> set seen then seen else seen @ [x]) xs acc) = set acc \<union> set xs"
  by (induction xs arbitrary: acc) auto

lemma unique_fold_distinct:
  "distinct acc \<Longrightarrow> distinct (fold (\<lambda>x seen. if x \<in> set seen then seen else seen @ [x]) xs acc)"
  by (induction xs arbitrary: acc) auto

lemma set_unique: "set (unique xs) = set xs"
  by (simp add: unique_def unique_fold_set)

lemma distinct_unique: "distinct (unique xs)"
  by (simp add: unique_def unique_fold_distinct)

lemma unique_Nil: "unique [] = []"
  by (simp add: unique_def)

lemma length_concat_sum: "length (concat xss) = sum_list (map length xss)"
  by (induction xss) auto

lemma lookup_meta_lexical_item_loaded:
  assumes "p_entry_map jm = Some em" and "p_mecab_decomp_map jm = Some dm"
    and "found_positions first_item = first_pos # ps"
  shows "lookup_meta_lexical_item jm (first_item # others) =
     Inr (map (meta_item_of first_pos
                 (sum_list (map (\<lambda>item. length (get_first_surface_form item)) (first_item # others)))
                 (dict_get dm (map base_form (first_item # others)))
                 (dict_get em (concat (map get_first_surface_form (first_item # others))))
                 (dict_get em (concat (map base_form (first_item # others)))))
            (unique (dict_get dm (map base_form (first_item # others)) @
                     dict_get em (concat (map get_first_surface_form (first_item # others))) @
                     dict_get em (concat (map base_form (first_item # others))))))"
  using assms
  by (simp add: lookup_meta_lexical_item_def get_entries_def Let_def unique_Nil
      meta_item_of_def length_concat_sum comp_def)

section \<open>The example dictionary and text\<close>

lemma dict_tokens3:
  "parse_mecab_output (dict_mecab dict_text) =
     [[[39135, 12409], [12479, 12505], [39135, 12409, 12427], [21205, 35422, 45, 33258, 31435],
       [19968, 27573], [36899, 29992, 24418]],
      [[29289], [12514, 12494], [29289], [21517, 35422, 45, 19968, 33324]],
      [[12290], [12290], [12290], [35352, 21495, 45, 21477, 28857]],
      [[69, 79, 83]]]"
  by (simp add: dict_mecab_def dict_text_def split_simps)

lemmas token_simps = adjust_offset_hit adjust_offset_miss END_OF_SECTION_MARKER_def
      EXPECTED_TOKEN_TAG_COUNTS_def create_mecab_interp_def create_found_lexical_item_def
      cache_surface_form_def py_split_def POS_SPLITTER_def Let_def

lemma dict_parse: "parse dict_mecab dict_text 0 = Some (Inr (dict_items None))"
  unfolding parse_def dict_tokens3
  by (simp add: dict_text_def token_simps dict_items_def base_item_def)

lemma dict_tokens2:
  "parse_mecab_output (dict_mecab [39135, 12409, 29289]) =
     [[[39135, 12409], [12479, 12505], [39135, 12409, 12427], [21205, 35422, 45, 33258, 31435],
       [19968, 27573], [36899, 29992, 24418]],
      [[29289], [12514, 12494], [29289], [21517, 35422, 45, 19968, 33324]],
      [[69, 79, 83]]]"
  by (simp add: dict_mecab_def split_simps)

lemma dict_tokens1:
  "parse_mecab_output (dict_mecab [29289]) =
     [[[29289], [12514, 12494], [29289], [21517, 35422, 45, 19968, 33324]],
      [[69, 79, 83]]]"
  by (simp add: dict_mecab_def split_simps)

lemma dict_decomb2:
  "get_mecab_decomb dict_mecab (dict_entry eid [39135, 12409, 29289]) =
     Some (Inr [[39135, 12409, 12427], [29289]])"
  unfolding get_mecab_decomb_def parse_def dict_entry_def
  by (simp add: dict_tokens2 token_simps)

lemma dict_decomb1:
  "get_mecab_decomb dict_mecab (dict_entry eid [29289]) = Some (Inr [[29289]])"
  unfolding get_mecab_decomb_def parse_def dict_entry_def
  by (simp add: dict_tokens1 token_simps)

lemma text_form_dict_entry: "text_form (dict_entry eid tf) = tf"
  by (simp add: dict_entry_def)

lemma dict_load_entries:
  "load_entries dict_mecab (concat dict_xml) [] [] =
     Some (Inr (the (p_entry_map dict_loaded), dict_decomp_map))"
  by (simp add: dict_xml_def dict_decomb1 dict_decomb2 dict_append_def dict_loaded_def
      dict_decomp_map_def text_form_dict_entry)

lemma dict_load:
  "load_jmdict True dict_mecab 100 dict_xml no_shelf 200 =
     Some (Inr (dict_loaded, \<lparr>path_mtime = Some 200, db_items = Some dict_decomp_map\<rparr>))"
  by (simp add: load_jmdict_def load_from_shelf_if_newer_def dict_load_entries no_shelf_def
      set_max_entry_lens_def max_len_def dict_loaded_def dict_decomp_map_def write_to_shelf_def)

lemmas meta_simps = find_meta_outer.simps find_meta_inner.simps
  within_jmdict_max_entry_len_def max_mecab_decomp_len_def max_text_form_len_def
  get_first_surface_form_def dict_loaded_def dict_items_def base_item_def Let_def

lemma dict_windows:
  "looked_up_windows dict_loaded (dict_items art) =
     Inr [take 2 (dict_items art), drop 1 (dict_items art)]"
  by (simp add: looked_up_windows_def meta_simps)

lemma dict_meta:
  "find_meta_lexical_items dict_loaded (dict_items art) = Inr [dict_meta_item None]"
  by (simp add: find_meta_lexical_items_def meta_simps lookup_meta_lexical_item_def
      get_entries_def dict_get_def dict_decomp_map_def unique_def dict_meta_item_def
      dict_entry_def)

lemma dict_items_article:
  "map (\<lambda>i. i\<lparr>article := Some a\<rparr>) (dict_items None) = dict_items (Some a)"
  by (simp add: dict_items_def base_item_def)

lemma dict_find:
  "find_lexical_items dict_mecab dict_loaded dict_text 0 dict_article =
     Some (Inr (take 2 (dict_items (Some dict_article)) @ [dict_meta_item (Some dict_article)]))"
  unfolding find_lexical_items_def dict_parse
  by (simp add: dict_items_article dict_meta)
     (simp add: dict_items_def base_item_def dict_meta_item_def is_symbol_def
        SYMBOL_PART_OF_SPEECH_def)

section \<open>Windows of the meta-item finder\<close>

lemma within_loaded:
  assumes "p_max_mecab_decomp_len jm = Some md" and "p_max_text_form_len jm = Some mt"
  shows "within_jmdict_max_entry_len jm w = Inr (within_length_bound md mt w)"
  using assms
  by (auto simp: within_jmdict_max_entry_len_def max_mecab_decomp_len_def
      max_text_form_len_def within_length_bound_def)

lemma find_meta_inner_stops:
  assumes "p_max_mecab_decomp_len jm = Some md" and "p_max_text_form_len jm = Some mt"
    and "e < length base"
    and "\<not> within_length_bound md mt (take (e + 1 - s) (drop s base))"
  shows "find_meta_inner jm lookup base s e acc = Inr acc"
  using assms(3,4) within_loaded[OF assms(1,2)]
  by (simp add: find_meta_inner.simps[of jm lookup base s e acc])

lemma find_meta_inner_windows:
  assumes "p_max_mecab_decomp_len jm = Some md" and "p_max_text_form_len jm = Some mt"
  shows "find_meta_inner jm (\<lambda>decomp. Inr [decomp]) base s e acc =
           Inr (acc @ windows_from md mt base s e)"
proof (induction "length base - e" arbitrary: e acc)
  case 0
  then show ?case
    by (simp add: find_meta_inner.simps[of jm _ base s e acc] windows_from_def)
next
  case (Suc n)
  then have lt: "e < length base" by simp
  have up: "[e ..< length base] = e # [e + 1 ..< length base]"
    using lt by (simp add: upt_conv_Cons)
  show ?case
  proof (cases "within_length_bound md mt (take (e + 1 - s) (drop s base))")
    case False
    with lt up show ?thesis
      using find_meta_inner_stops[OF assms lt False] by (simp add: windows_from_def)
  next
    case True
    have ih: "find_meta_inner jm (\<lambda>decomp. Inr [decomp]) base s (e + 1)
                (acc @ [take (e + 1 - s) (drop s base)]) =
              Inr ((acc @ [take (e + 1 - s) (drop s base)]) @
                   windows_from md mt base s (e + 1))"
      using Suc.hyps(1)[of "e + 1"] Suc.hyps(2) by simp
    show ?thesis
      using lt True within_loaded[OF assms] ih up
      by (simp add: find_meta_inner.simps[of jm _ base s e acc] windows_from_def)
  qed
qed

lemma find_meta_outer_windows:
  assumes "p_max_mecab_decomp_len jm = Some md" and "p_max_text_form_len jm = Some mt"
  shows "find_meta_outer jm (\<lambda>decomp. Inr [decomp]) base s acc =
           Inr (acc @ concat (map (\<lambda>i. windows_from md mt base i (i + 1))
                                [s ..< length base]))"
proof (induction "length base - s" arbitrary: s acc)
  case 0
  then show ?case by (simp add: find_meta_outer.simps[of jm _ base s acc])
next
  case (Suc n)
  then have lt: "s < length base" by simp
  have up: "[s ..< length base] = s # [s + 1 ..< length base]"
    using lt by (simp add: upt_conv_Cons)
  have ih: "find_meta_outer jm (\<lambda>decomp. Inr [decomp]) base (s + 1)
              (acc @ windows_from md mt base s (s + 1)) =
            Inr ((acc @ windows_from md mt base s (s + 1)) @
                 concat (map (\<lambda>i. windows_from md mt base i (i + 1))
                           [s + 1 ..< length base]))"
    using Suc.hyps(1)[of "s + 1"] Suc.hyps(2) by simp
  show ?case
    using lt ih up find_meta_inner_windows[OF assms, of base s "s + 1" acc]
    by (simp add: find_meta_outer.simps[of jm _ base s acc])
qed

lemma find_meta_inner_lookups:
  assumes "p_max_mecab_decomp_len jm = Some md" and "p_max_text_form_len jm = Some mt"
  shows "find_meta_inner jm lookup base s e acc = Inr r \<Longrightarrow>
           r = acc @ concat (map (\<lambda>w. projr (lookup w)) (windows_from md mt base s e))"
proof (induction "length base - e" arbitrary: e acc)
  case 0
  then show ?case
    by (simp add: find_meta_inner.simps[of jm _ base s e acc] windows_from_def)
next
  case (Suc n)
  then have lt: "e < length base" by simp
  have up: "[e ..< length base] = e # [e + 1 ..< length base]"
    using lt by (simp add: upt_conv_Cons)
  let ?w = "take (e + 1 - s) (drop s base)"
  show ?case
  proof (cases "within_length_bound md mt ?w")
    case False
    with lt up Suc.prems show ?thesis
      using find_meta_inner_stops[OF assms lt False, of lookup acc] by (simp add: windows_from_def)
  next
    case True
    from Suc.prems lt True within_loaded[OF assms, of ?w] obtain items where
      it: "lookup ?w = Inr items"
      and r: "find_meta_inner jm lookup base s (e + 1) (acc @ items) = Inr r"
      by (auto simp: find_meta_inner.simps[of jm _ base s e acc] Let_def split: sum.splits)
    from Suc.hyps(1)[of "e + 1", OF _ r] Suc.hyps(2)
    have "r = (acc @ items) @ concat (map (\<lambda>w. projr (lookup w))
                 (windows_from md mt base s (e + 1)))" by simp
    with True it up show ?thesis by (simp add: windows_from_def)
  qed
qed

lemma find_meta_outer_lookups:
  assumes "p_max_mecab_decomp_len jm = Some md" and "p_max_text_form_len jm = Some mt"
  shows "find_meta_outer jm lookup base s acc = Inr r \<Longrightarrow>
           r = acc @ concat (map (\<lambda>w. projr (lookup w))
                 (concat (map (\<lambda>i. windows_from md mt base i (i + 1))
                            [s ..< length base])))"
proof (induction "length base - s" arbitrary: s acc)
  case 0
  then show ?case by (simp add: find_meta_outer.simps[of jm _ base s acc])
next
  case (Suc n)
  then have lt: "s < length base" by simp
  have up: "[s ..< length base] = s # [s + 1 ..< length base]"
    using lt by (simp add: upt_conv_Cons)
  from Suc.prems lt obtain acc1 where
    a: "find_meta_inner jm lookup base s (s + 1) acc = Inr acc1"
    and r: "find_meta_outer jm lookup base (s + 1) acc1 = Inr r"
    by (auto simp: find_meta_outer.simps[of jm _ base s acc] split: sum.splits)
  from find_meta_inner_lookups[OF assms a]
  have a1: "acc1 = acc @ concat (map (\<lambda>w. projr (lookup w))
              (windows_from md mt base s (s + 1)))" .
  from Suc.hyps(1)[of "s + 1", OF _ r] Suc.hyps(2)
  have "r = acc1 @ concat (map (\<lambda>w. projr (lookup w))
                 (concat (map (\<lambda>i. windows_from md mt base i (i + 1))
                            [s + 1 ..< length base])))" by simp
  with a1 up show ?case by simp
qed


text \<open>
  Claim C4.  With both length bounds of the dictionary loaded, the windows the meta-item finder
  passes to the dictionary lookup are, for each start \<open>i\<close> in order, the windows
  \<open>base[i : j + 1]\<close> for \<open>j = i + 1, i + 2, \<dots>\<close> up to but not including the first one for which
  all three length measures fail; so every looked-up window has at most \<open>max_mecab_decomp_len\<close>
  items, or base forms of summed length at most \<open>max_text_form_len\<close>, or first surface forms
  of summed length at most \<open>max_text_form_len\<close>.  The items the finder returns are the results
  of the lookup on exactly these windows, and the inner loop returns what it has collected as
  soon as it reaches a window for which all three measures fail.
\<close>

theorem meta_finder_windows_within_bound:
  "p_max_mecab_decomp_len jm = Some md \<and> p_max_text_form_len jm = Some mt \<longrightarrow>
     (\<exists>ws. looked_up_windows jm base = Inr ws \<and>
        (\<forall>w\<in>set ws. within_length_bound md mt w) \<and>
        ws = concat (map (\<lambda>i. takeWhile (within_length_bound md mt)
                              (map (\<lambda>j. take (j + 1 - i) (drop i base)) [i + 1 ..< length base]))
                      [0 ..< length base]) \<and>
        (\<forall>metas. find_meta_lexical_items jm base = Inr metas \<longrightarrow>
           metas = concat (map (\<lambda>w. projr (lookup_meta_lexical_item jm w)) ws))) \<and>
     (\<forall>lookup s e acc.
        e < length base \<and> \<not> within_length_bound md mt (take (e + 1 - s) (drop s base)) \<longrightarrow>
          find_meta_inner jm lookup base s e (acc :: FoundJpnLexicalItem list) = Inr acc)"
proof (intro impI)
  assume h: "p_max_mecab_decomp_len jm = Some md \<and> p_max_text_form_len jm = Some mt"
  then have md: "p_max_mecab_decomp_len jm = Some md" and mt: "p_max_text_form_len jm = Some mt"
    by simp_all
  let ?ws = "concat (map (\<lambda>i. takeWhile (within_length_bound md mt)
                              (map (\<lambda>j. take (j + 1 - i) (drop i base)) [i + 1 ..< length base]))
                      [0 ..< length base])"
  have w: "looked_up_windows jm base = Inr ?ws"
    using find_meta_outer_windows[OF md mt, of base 0 "[]"]
    by (simp add: looked_up_windows_def windows_from_def)
  have ok: "\<forall>w\<in>set ?ws. within_length_bound md mt w"
    by (auto dest: set_takeWhileD)
  have lk: "\<forall>metas. find_meta_lexical_items jm base = Inr metas \<longrightarrow>
           metas = concat (map (\<lambda>w. projr (lookup_meta_lexical_item jm w)) ?ws)"
    using find_meta_outer_lookups[OF md mt, of "lookup_meta_lexical_item jm" base 0 "[]"]
    by (simp add: find_meta_lexical_items_def windows_from_def)
  have st: "\<forall>lookup s e acc.
        e < length base \<and> \<not> within_length_bound md mt (take (e + 1 - s) (drop s base)) \<longrightarrow>
          find_meta_inner jm lookup base s e (acc :: FoundJpnLexicalItem list) = Inr acc"
    using find_meta_inner_stops[OF md mt] by blast
  from w ok lk st show "(\<exists>ws. looked_up_windows jm base = Inr ws \<and>
        (\<forall>w\<in>set ws. within_length_bound md mt w) \<and>
        ws = ?ws \<and>
        (\<forall>metas. find_meta_lexical_items jm base = Inr metas \<longrightarrow>
           metas = concat (map (\<lambda>w. projr (lookup_meta_lexical_item jm w)) ws))) \<and>
     (\<forall>lookup s e acc.
        e < length base \<and> \<not> within_length_bound md mt (take (e + 1 - s) (drop s base)) \<longrightarrow>
          find_meta_inner jm lookup base s e (acc :: FoundJpnLexicalItem list) = Inr acc)"
    by blast
qed

text \<open>In the example the bounds are 2 and 3; the windows (tabe, mono) and (mono, full stop)
  are looked up, and the inner loop stops at the window of all three items.\<close>

theorem meta_finder_windows_within_bound_witness:
  "p_max_mecab_decomp_len dict_loaded = Some 2 \<and> p_max_text_form_len dict_loaded = Some 3 \<and>
   looked_up_windows dict_loaded (dict_items None) =
     Inr [take 2 (dict_items None), drop 1 (dict_items None)] \<and>
   within_length_bound 2 3 (take 2 (dict_items None)) \<and>
   within_length_bound 2 3 (drop 1 (dict_items None)) \<and>
   \<not> within_length_bound 2 3 (dict_items None) \<and>
   find_meta_inner dict_loaded (lookup_meta_lexical_item dict_loaded) (dict_items None) 0 2
     [dict_meta_item None] = Inr [dict_meta_item None]"
proof -
  have l: "p_max_mecab_decomp_len dict_loaded = Some 2 \<and> p_max_text_form_len dict_loaded = Some 3"
    by (simp add: dict_loaded_def)
  have n: "\<not> within_length_bound 2 3 (dict_items None)"
    by (simp add: within_length_bound_def dict_items_def base_item_def get_first_surface_form_def)
  have t: "take (2 + 1 - 0) (drop 0 (dict_items None)) = dict_items None"
    by (simp add: dict_items_def)
  have len: "2 < length (dict_items None)" by (simp add: dict_items_def)
  from meta_finder_windows_within_bound[of dict_loaded 2 3 "dict_items None"] l
  have "(\<exists>ws. looked_up_windows dict_loaded (dict_items None) = Inr ws \<and>
           (\<forall>w\<in>set ws. within_length_bound 2 3 w)) \<and>
        (\<forall>lookup s e acc.
          e < length (dict_items None) \<and>
          \<not> within_length_bound 2 3 (take (e + 1 - s) (drop s (dict_items None))) \<longrightarrow>
          find_meta_inner dict_loaded lookup (dict_items None) s e
            (acc :: FoundJpnLexicalItem list) = Inr acc)"
    by blast
  with dict_windows[of None] l n t len show ?thesis by auto
qed

section \<open>The items of one window\<close>

lemma meta_item_of_sources:
  "\<exists>sources. possible_interps (meta_item_of first_pos n d s b entry) =
       [\<lparr>mecab_interp = None, jmdict_interp_entry_id = Some (entry_id entry),
         interp_sources = sources\<rparr>] \<and>
     distinct sources \<and>
     set sources =
       {src. src = JMDICT_MECAB_DECOMP \<and> entry \<in> set d \<or>
             src = JMDICT_SURFACE_FORM \<and> entry \<in> set s \<or>
             src = JMDICT_BASE_FORM \<and> entry \<in> set b}"
  by (auto simp: meta_item_of_def)

text \<open>
  Claim C5.  Let the dictionary be loaded and let the window start with an item that has a
  position.  Let \<open>d\<close>, \<open>s\<close> and \<open>b\<close> be the results of the decomposition lookup (the tuple of base
  forms), the surface-form lookup (the joined first surface forms) and the base-form lookup (the
  joined base forms).  If all three are empty the finder emits nothing for the window.  In every
  case it emits exactly one item per entry of the unique union of \<open>d + s + b\<close> in first-seen
  order, and the item of an entry has the entry's text form as base form, the single position
  that starts where the first item of the window starts and is as long as the summed surface
  forms of the window, and the single dictionary interpretation with the entry's id whose source
  tags are exactly those of the lookups that returned the entry.
\<close>

theorem lookup_meta_lexical_item_entries:
  "p_entry_map jm = Some em \<and> p_mecab_decomp_map jm = Some dm \<and>
   base_decomp = first_item # others \<and> found_positions first_item = first_pos # ps \<and>
   d = dict_get dm (map base_form base_decomp) \<and>
   s = dict_get em (concat (map get_first_surface_form base_decomp)) \<and>
   b = dict_get em (concat (map base_form base_decomp)) \<longrightarrow>
     get_entries jm (MecabDecomp (map base_form base_decomp)) = Inr d \<and>
     get_entries jm (TextForm (concat (map get_first_surface_form base_decomp))) = Inr s \<and>
     get_entries jm (TextForm (concat (map base_form base_decomp))) = Inr b \<and>
     (\<exists>metas. lookup_meta_lexical_item jm base_decomp = Inr metas \<and>
        (d = [] \<and> s = [] \<and> b = [] \<longrightarrow> metas = []) \<and>
        length metas = length (unique (d @ s @ b)) \<and>
        distinct (unique (d @ s @ b)) \<and>
        set (unique (d @ s @ b)) = set d \<union> set s \<union> set b \<and>
        (\<forall>i<length metas.
           base_form (metas ! i) = text_form (unique (d @ s @ b) ! i) \<and>
           found_positions (metas ! i) =
             [\<lparr>start = start first_pos,
               len = sum_list (map (\<lambda>item. length (get_first_surface_form item)) base_decomp)\<rparr>] \<and>
           (\<exists>sources.
              possible_interps (metas ! i) =
                [\<lparr>mecab_interp = None,
                  jmdict_interp_entry_id = Some (entry_id (unique (d @ s @ b) ! i)),
                  interp_sources = sources\<rparr>] \<and>
              distinct sources \<and>
              set sources =
                {src. src = JMDICT_MECAB_DECOMP \<and> unique (d @ s @ b) ! i \<in> set d \<or>
                      src = JMDICT_SURFACE_FORM \<and> unique (d @ s @ b) ! i \<in> set s \<or>
                      src = JMDICT_BASE_FORM \<and> unique (d @ s @ b) ! i \<in> set b})))"
proof (intro impI)
  assume h: "p_entry_map jm = Some em \<and> p_mecab_decomp_map jm = Some dm \<and>
   base_decomp = first_item # others \<and> found_positions first_item = first_pos # ps \<and>
   d = dict_get dm (map base_form base_decomp) \<and>
   s = dict_get em (concat (map get_first_surface_form base_decomp)) \<and>
   b = dict_get em (concat (map base_form base_decomp))"
  let ?n = "sum_list (map (\<lambda>item. length (get_first_surface_form item)) base_decomp)"
  let ?u = "unique (d @ s @ b)"
  let ?metas = "map (meta_item_of first_pos ?n d s b) ?u"
  from h have g: "get_entries jm (MecabDecomp (map base_form base_decomp)) = Inr d"
    "get_entries jm (TextForm (concat (map get_first_surface_form base_decomp))) = Inr s"
    "get_entries jm (TextForm (concat (map base_form base_decomp))) = Inr b"
    by (simp_all add: get_entries_def)
  from h have l: "lookup_meta_lexical_item jm base_decomp = Inr ?metas"
    using lookup_meta_lexical_item_loaded[of jm em dm first_item first_pos ps others] by simp
  have e: "d = [] \<and> s = [] \<and> b = [] \<longrightarrow> ?metas = []"
    by (simp add: unique_Nil)
  have p: "\<forall>i<length ?metas.
           base_form (?metas ! i) = text_form (?u ! i) \<and>
           found_positions (?metas ! i) = [\<lparr>start = start first_pos, len = ?n\<rparr>] \<and>
           (\<exists>sources.
              possible_interps (?metas ! i) =
                [\<lparr>mecab_interp = None,
                  jmdict_interp_entry_id = Some (entry_id (?u ! i)),
                  interp_sources = sources\<rparr>] \<and>
              distinct sources \<and>
              set sources =
                {src. src = JMDICT_MECAB_DECOMP \<and> ?u ! i \<in> set d \<or>
                      src = JMDICT_SURFACE_FORM \<and> ?u ! i \<in> set s \<or>
                      src = JMDICT_BASE_FORM \<and> ?u ! i \<in> set b})"
  proof (intro allI impI)
    fix i assume "i < length ?metas"
    then have i: "?metas ! i = meta_item_of first_pos ?n d s b (?u ! i)" by simp
    show "base_form (?metas ! i) = text_form (?u ! i) \<and>
           found_positions (?metas ! i) = [\<lparr>start = start first_pos, len = ?n\<rparr>] \<and>
           (\<exists>sources.
              possible_interps (?metas ! i) =
                [\<lparr>mecab_interp = None,
                  jmdict_interp_entry_id = Some (entry_id (?u ! i)),
                  interp_sources = sources\<rparr>] \<and>
              distinct sources \<and>
              set sources =
                {src. src = JMDICT_MECAB_DECOMP \<and> ?u ! i \<in> set d \<or>
                      src = JMDICT_SURFACE_FORM \<and> ?u ! i \<in> set s \<or>
                      src = JMDICT_BASE_FORM \<and> ?u ! i \<in> set b})"
      unfolding i using meta_item_of_sources[of first_pos ?n d s b "?u ! i"]
      by (simp add: meta_item_of_def)
  qed
  have u: "length ?metas = length ?u" "distinct ?u" "set ?u = set d \<union> set s \<union> set b"
    by (simp_all add: distinct_unique set_unique Un_assoc)
  from g l e p u show "get_entries jm (MecabDecomp (map base_form base_decomp)) = Inr d \<and>
     get_entries jm (TextForm (concat (map get_first_surface_form base_decomp))) = Inr s \<and>
     get_entries jm (TextForm (concat (map base_form base_decomp))) = Inr b \<and>
     (\<exists>metas. lookup_meta_lexical_item jm base_decomp = Inr metas \<and>
        (d = [] \<and> s = [] \<and> b = [] \<longrightarrow> metas = []) \<and>
        length metas = length ?u \<and> distinct ?u \<and> set ?u = set d \<union> set s \<union> set b \<and>
        (\<forall>i<length metas.
           base_form (metas ! i) = text_form (?u ! i) \<and>
           found_positions (metas ! i) = [\<lparr>start = start first_pos, len = ?n\<rparr>] \<and>
           (\<exists>sources.
              possible_interps (metas ! i) =
                [\<lparr>mecab_interp = None,
                  jmdict_interp_entry_id = Some (entry_id (?u ! i)),
                  interp_sources = sources\<rparr>] \<and>
              distinct sources \<and>
              set sources =
                {src. src = JMDICT_MECAB_DECOMP \<and> ?u ! i \<in> set d \<or>
                      src = JMDICT_SURFACE_FORM \<and> ?u ! i \<in> set s \<or>
                      src = JMDICT_BASE_FORM \<and> ?u ! i \<in> set b})))"
    by blast
qed

lemma dict_window_lookups:
  "dict_get dict_decomp_map (map base_form (take 2 (dict_items None))) =
     [dict_entry [49] [39135, 12409, 29289]]"
  "dict_get (the (p_entry_map dict_loaded))
     (concat (map get_first_surface_form (take 2 (dict_items None)))) =
     [dict_entry [49] [39135, 12409, 29289]]"
  "dict_get (the (p_entry_map dict_loaded)) (concat (map base_form (take 2 (dict_items None)))) = []"
  by (simp_all add: dict_get_def dict_decomp_map_def dict_loaded_def dict_items_def base_item_def
      get_first_surface_form_def)

text \<open>The window (tabe, mono) of the example: the decomposition and the surface form find the
  entry tabemono, the base form finds nothing, and the one item covers three characters from
  position 0.\<close>

theorem lookup_meta_lexical_item_entries_witness:
  "\<exists>metas. lookup_meta_lexical_item dict_loaded (take 2 (dict_items None)) = Inr metas \<and>
      length metas = 1 \<and>
      base_form (metas ! 0) = [39135, 12409, 29289] \<and>
      found_positions (metas ! 0) = [\<lparr>start = 0, len = 3\<rparr>] \<and>
      (\<exists>sources. possible_interps (metas ! 0) =
           [\<lparr>mecab_interp = None, jmdict_interp_entry_id = Some [49],
             interp_sources = sources\<rparr>] \<and>
         set sources = {JMDICT_MECAB_DECOMP, JMDICT_SURFACE_FORM})"
proof -
  let ?e = "dict_entry [49] [39135, 12409, 29289]"
  have h: "p_entry_map dict_loaded = Some (the (p_entry_map dict_loaded)) \<and>
     p_mecab_decomp_map dict_loaded = Some dict_decomp_map \<and>
     take 2 (dict_items None) = (dict_items None ! 0) # [dict_items None ! 1] \<and>
     found_positions (dict_items None ! 0) = \<lparr>start = 0, len = 2\<rparr> # [] \<and>
     [?e] = dict_get dict_decomp_map (map base_form (take 2 (dict_items None))) \<and>
     [?e] = dict_get (the (p_entry_map dict_loaded))
              (concat (map get_first_surface_form (take 2 (dict_items None)))) \<and>
     [] = dict_get (the (p_entry_map dict_loaded))
              (concat (map base_form (take 2 (dict_items None))))"
    unfolding dict_window_lookups
    by (simp add: dict_loaded_def dict_items_def base_item_def)
  have u: "unique ([?e] @ [?e] @ []) = [?e]" by (simp add: unique_def)
  have n: "sum_list (map (\<lambda>item. length (get_first_surface_form item)) (take 2 (dict_items None))) = 3"
    by (simp add: dict_items_def base_item_def get_first_surface_form_def)
  have s: "{src. src = JMDICT_MECAB_DECOMP \<and> ?e \<in> set [?e] \<or>
                 src = JMDICT_SURFACE_FORM \<and> ?e \<in> set [?e] \<or>
                 src = JMDICT_BASE_FORM \<and> ?e \<in> set []} =
           {JMDICT_MECAB_DECOMP, JMDICT_SURFACE_FORM}"
    by auto
  from lookup_meta_lexical_item_entries[of dict_loaded "the (p_entry_map dict_loaded)"
      dict_decomp_map "take 2 (dict_items None)" "dict_items None ! 0" "[dict_items None ! 1]"
      "\<lparr>start = 0, len = 2\<rparr>" "[]" "[?e]" "[?e]" "[]"] h
  obtain metas where m: "lookup_meta_lexical_item dict_loaded (take 2 (dict_items None)) = Inr metas"
    "length metas = length (unique ([?e] @ [?e] @ []))"
    "\<forall>i<length metas.
           base_form (metas ! i) = text_form (unique ([?e] @ [?e] @ []) ! i) \<and>
           found_positions (metas ! i) =
             [\<lparr>start = start \<lparr>start = 0, len = 2\<rparr>,
               len = sum_list (map (\<lambda>item. length (get_first_surface_form item))
                       (take 2 (dict_items None)))\<rparr>] \<and>
           (\<exists>sources.
              possible_interps (metas ! i) =
                [\<lparr>mecab_interp = None,
                  jmdict_interp_entry_id = Some (entry_id (unique ([?e] @ [?e] @ []) ! i)),
                  interp_sources = sources\<rparr>] \<and>
              distinct sources \<and>
              set sources =
                {src. src = JMDICT_MECAB_DECOMP \<and> unique ([?e] @ [?e] @ []) ! i \<in> set [?e] \<or>
                      src = JMDICT_SURFACE_FORM \<and> unique ([?e] @ [?e] @ []) ! i \<in> set [?e] \<or>
                      src = JMDICT_BASE_FORM \<and> unique ([?e] @ [?e] @ []) ! i \<in> set []})"
    by blast
  from m(2) u have len: "length metas = 1" by simp
  with m(3) have "base_form (metas ! 0) = text_form (unique ([?e] @ [?e] @ []) ! 0) \<and>
           found_positions (metas ! 0) =
             [\<lparr>start = start \<lparr>start = 0, len = 2\<rparr>,
               len = sum_list (map (\<lambda>item. length (get_first_surface_form item))
                       (take 2 (dict_items None)))\<rparr>] \<and>
           (\<exists>sources.
              possible_interps (metas ! 0) =
                [\<lparr>mecab_interp = None,
                  jmdict_interp_entry_id = Some (entry_id (unique ([?e] @ [?e] @ []) ! 0)),
                  interp_sources = sources\<rparr>] \<and>
              distinct sources \<and>
              set sources =
                {src. src = JMDICT_MECAB_DECOMP \<and> unique ([?e] @ [?e] @ []) ! 0 \<in> set [?e] \<or>
                      src = JMDICT_SURFACE_FORM \<and> unique ([?e] @ [?e] @ []) ! 0 \<in> set [?e] \<or>
                      src = JMDICT_BASE_FORM \<and> unique ([?e] @ [?e] @ []) ! 0 \<in> set []})"
    by simp
  then have "base_form (metas ! 0) = [39135, 12409, 29289] \<and>
      found_positions (metas ! 0) = [\<lparr>start = 0, len = 3\<rparr>] \<and>
      (\<exists>sources. possible_interps (metas ! 0) =
           [\<lparr>mecab_interp = None, jmdict_interp_entry_id = Some [49],
             interp_sources = sources\<rparr>] \<and>
         set sources = {JMDICT_MECAB_DECOMP, JMDICT_SURFACE_FORM})"
    unfolding u n using s by (auto simp: dict_entry_def)
  with m(1) len show ?thesis by blast
qed

section \<open>Symbols and meta items\<close>

lemma lookup_meta_no_mecab_interp:
  "lookup_meta_lexical_item jm w = Inr items \<Longrightarrow>
     \<forall>m\<in>set items. \<exists>eid src. possible_interps m =
        [\<lparr>mecab_interp = None, jmdict_interp_entry_id = Some eid, interp_sources = src\<rparr>]"
  by (auto simp: lookup_meta_lexical_item_def Let_def
      split: sum.splits if_splits list.splits)

lemma find_meta_no_mecab_interp:
  assumes "find_meta_lexical_items jm base = Inr metas"
  shows "\<forall>m\<in>set metas. \<exists>eid src. possible_interps m =
        [\<lparr>mecab_interp = None, jmdict_interp_entry_id = Some eid, interp_sources = src\<rparr>]"
proof -
  let ?P = "\<lambda>m. \<exists>eid src. possible_interps m =
        [\<lparr>mecab_interp = None, jmdict_interp_entry_id = Some eid, interp_sources = src\<rparr>]"
  have l: "\<forall>w items. lookup_meta_lexical_item jm w = Inr items \<longrightarrow> (\<forall>x\<in>set items. ?P x)"
    using lookup_meta_no_mecab_interp by blast
  have e: "\<forall>x\<in>set []. ?P x" by simp
  from assms have r: "find_meta_outer jm (lookup_meta_lexical_item jm) base 0 [] = Inr metas"
    by (simp add: find_meta_lexical_items_def)
  from find_meta_outer_all[of "lookup_meta_lexical_item jm" ?P "[]", OF l e r]
  show ?thesis .
qed

lemma no_mecab_interp_not_symbol:
  "\<forall>interp\<in>set (possible_interps fli). mecab_interp interp = None \<Longrightarrow> \<not> is_symbol fli"
  by (auto simp: is_symbol_iff)

lemma is_symbol_article: "is_symbol (fli\<lparr>article := a\<rparr>) = is_symbol fli"
  by (simp add: is_symbol_def)

text \<open>
  Claim C10.  An item none of whose interpretations carries a MeCab interpretation is not a
  symbol.  Every item the meta-item finder returns has one interpretation, with a dictionary
  entry id and no MeCab interpretation, so it is not a symbol; and when \<open>_find_lexical_items\<close>
  has parsed the text and found the meta items, each of them (with the article set) is in its
  result.
\<close>

theorem meta_items_never_symbols:
  "((\<forall>interp\<in>set (possible_interps fli). mecab_interp interp = None) \<longrightarrow> \<not> is_symbol fli) \<and>
   (find_meta_lexical_items jm base = Inr metas \<longrightarrow>
      (\<forall>m\<in>set metas.
         (\<exists>eid src. possible_interps m =
            [\<lparr>mecab_interp = None, jmdict_interp_entry_id = Some eid, interp_sources = src\<rparr>]) \<and>
         \<not> is_symbol m)) \<and>
   (parse mecab tx offset = Some (Inr parsed) \<and>
    find_meta_lexical_items jm (map (\<lambda>item. item\<lparr>article := Some a\<rparr>) parsed) = Inr found \<longrightarrow>
      (\<exists>res. find_lexical_items mecab jm tx offset a = Some (Inr res) \<and>
         (\<forall>m\<in>set found. m\<lparr>article := Some a\<rparr> \<in> set res)))"
proof -
  have p1: "(\<forall>interp\<in>set (possible_interps fli). mecab_interp interp = None) \<longrightarrow> \<not> is_symbol fli"
    using no_mecab_interp_not_symbol by blast
  have p2: "\<forall>m\<in>set ms.
         (\<exists>eid src. possible_interps m =
            [\<lparr>mecab_interp = None, jmdict_interp_entry_id = Some eid, interp_sources = src\<rparr>]) \<and>
         \<not> is_symbol m" if "find_meta_lexical_items jm' b = Inr ms" for jm' b ms
  proof
    fix m assume "m \<in> set ms"
    with find_meta_no_mecab_interp[OF that] obtain eid src where
      i: "possible_interps m =
            [\<lparr>mecab_interp = None, jmdict_interp_entry_id = Some eid, interp_sources = src\<rparr>]"
      by blast
    then have "\<not> is_symbol m" by (simp add: is_symbol_def)
    with i show "(\<exists>eid src. possible_interps m =
            [\<lparr>mecab_interp = None, jmdict_interp_entry_id = Some eid, interp_sources = src\<rparr>]) \<and>
         \<not> is_symbol m" by blast
  qed
  have p3: "\<exists>res. find_lexical_items mecab jm tx offset a = Some (Inr res) \<and>
         (\<forall>m\<in>set found. m\<lparr>article := Some a\<rparr> \<in> set res)"
    if "parse mecab tx offset = Some (Inr parsed)"
      "find_meta_lexical_items jm (map (\<lambda>item. item\<lparr>article := Some a\<rparr>) parsed) = Inr found"
    using that p2[OF that(2)] by (auto simp: find_lexical_items_def Let_def)
  from p1 p2[of jm base metas] p3 show ?thesis by blast
qed

text \<open>The meta item tabemono of the example is not a symbol and is in the result.\<close>

theorem meta_items_never_symbols_witness:
  "find_meta_lexical_items dict_loaded (dict_items (Some dict_article)) = Inr [dict_meta_item None] \<and>
   \<not> is_symbol (dict_meta_item None) \<and>
   (\<exists>res. find_lexical_items dict_mecab dict_loaded dict_text 0 dict_article = Some (Inr res) \<and>
      dict_meta_item (Some dict_article) \<in> set res)"
proof -
  have a: "(dict_meta_item None)\<lparr>article := Some dict_article\<rparr> = dict_meta_item (Some dict_article)"
    by (simp add: dict_meta_item_def)
  have i: "\<forall>interp\<in>set (possible_interps (dict_meta_item None)). mecab_interp interp = None"
    by (simp add: dict_meta_item_def)
  from meta_items_never_symbols[of "dict_meta_item None" dict_loaded
      "dict_items (Some dict_article)" "[dict_meta_item None]" dict_mecab dict_text 0
      "dict_items None" dict_article "[dict_meta_item None]"]
    dict_meta[of "Some dict_article"] dict_parse dict_items_article[of dict_article] i a
  show ?thesis by simp
qed

text \<open>
  Claim C1, amended.  An item is classified as a symbol if and only if at least one of its
  interpretations carries a MeCab interpretation one of whose parts of speech, at any level,
  is the symbol tag.  The filtering step of \<open>_find_lexical_items\<close> returns, in order and with the
  article set, exactly the MeCab items and meta items that are not classified so.
\<close>

theorem symbol_filter_any_part_of_speech:
  "(is_symbol fli \<longleftrightarrow>
      (\<exists>interp\<in>set (possible_interps fli). \<exists>m. mecab_interp interp = Some m \<and>
          SYMBOL_PART_OF_SPEECH \<in> set (parts_of_speech m))) \<and>
   (parse mecab tx offset = Some (Inr parsed) \<and>
    find_meta_lexical_items jm (map (\<lambda>item. item\<lparr>article := Some a\<rparr>) parsed) = Inr metas \<longrightarrow>
      find_lexical_items mecab jm tx offset a =
        Some (Inr (map (\<lambda>item. item\<lparr>article := Some a\<rparr>)
          (filter (\<lambda>item. \<not> (\<exists>interp\<in>set (possible_interps item). \<exists>m.
                      mecab_interp interp = Some m \<and>
                      SYMBOL_PART_OF_SPEECH \<in> set (parts_of_speech m)))
             (map (\<lambda>item. item\<lparr>article := Some a\<rparr>) parsed @ metas)))))"
proof -
  have f: "(\<lambda>item. \<not> is_symbol item) =
        (\<lambda>item. \<not> (\<exists>interp\<in>set (possible_interps item). \<exists>m.
                      mecab_interp interp = Some m \<and>
                      SYMBOL_PART_OF_SPEECH \<in> set (parts_of_speech m)))"
    by (simp add: is_symbol_iff)
  show ?thesis
    unfolding f[symmetric] using is_symbol_iff[of fli]
    by (simp add: find_lexical_items_def Let_def)
qed

text \<open>In the example the full stop is a symbol, the verb stem is not, and the result keeps the
  two words and the meta item.\<close>

theorem symbol_filter_any_part_of_speech_witness:
  "is_symbol (dict_items (Some dict_article) ! 2) \<and>
   \<not> is_symbol (dict_items (Some dict_article) ! 0) \<and>
   find_lexical_items dict_mecab dict_loaded dict_text 0 dict_article =
     Some (Inr (take 2 (dict_items (Some dict_article)) @ [dict_meta_item (Some dict_article)]))"
proof -
  have s: "\<exists>interp\<in>set (possible_interps (dict_items (Some dict_article) ! 2)). \<exists>m.
             mecab_interp interp = Some m \<and> SYMBOL_PART_OF_SPEECH \<in> set (parts_of_speech m)"
    by (simp add: dict_items_def base_item_def SYMBOL_PART_OF_SPEECH_def)
  have n: "\<not> (\<exists>interp\<in>set (possible_interps (dict_items (Some dict_article) ! 0)). \<exists>m.
             mecab_interp interp = Some m \<and> SYMBOL_PART_OF_SPEECH \<in> set (parts_of_speech m))"
    by (simp add: dict_items_def base_item_def SYMBOL_PART_OF_SPEECH_def)
  have fl: "map (\<lambda>item. item\<lparr>article := Some dict_article\<rparr>)
          (filter (\<lambda>item. \<not> (\<exists>interp\<in>set (possible_interps item). \<exists>m.
                      mecab_interp interp = Some m \<and>
                      SYMBOL_PART_OF_SPEECH \<in> set (parts_of_speech m)))
             (dict_items (Some dict_article) @ [dict_meta_item None])) =
        take 2 (dict_items (Some dict_article)) @ [dict_meta_item (Some dict_article)]"
    by (simp add: dict_items_def base_item_def dict_meta_item_def SYMBOL_PART_OF_SPEECH_def)
  from symbol_filter_any_part_of_speech[of "dict_items (Some dict_article) ! 2" dict_mecab
      dict_text 0 "dict_items None" dict_loaded dict_article "[dict_meta_item None]"]
    symbol_filter_any_part_of_speech[of "dict_items (Some dict_article) ! 0" dict_mecab
      dict_text 0 "dict_items None" dict_loaded dict_article "[dict_meta_item None]"]
    s n fl dict_parse dict_meta[of "Some dict_article"] dict_items_article[of dict_article]
  show ?thesis by simp
qed

text \<open>Claim C1 as stated fails.  For a token line whose parts of speech are noun and then
  the symbol tag, the single MeCab interpretation of the item has a first part of speech that
  is not the symbol tag, so by the claim the item survives; the code classifies it as a symbol
  and the result is empty.\<close>

theorem symbol_filter_first_tag_counterexample:
  "parse (fixed_mecab [35, 9, 35, 9, 35, 9, 21517, 35422, 45, 35352, 21495, 10]) [35] 0 =
     Some (Inr [base_item [35] [35] 0 [[21517, 35422], [35352, 21495]] None None]) \<and>
   hd [[21517, 35422], [35352, 21495]] \<noteq> SYMBOL_PART_OF_SPEECH \<and>
   is_symbol (base_item [35] [35] 0 [[21517, 35422], [35352, 21495]] None None) \<and>
   find_lexical_items (fixed_mecab [35, 9, 35, 9, 35, 9, 21517, 35422, 45, 35352, 21495, 10])
     init_JMdict [35] 0 \<lparr>full_text = [35]\<rparr> = Some (Inr [])"
proof -
  have t: "parse_mecab_output [35, 9, 35, 9, 35, 9, 21517, 35422, 45, 35352, 21495, 10] =
             [[[35], [35], [35], [21517, 35422, 45, 35352, 21495]]]"
    by (simp add: split_simps)
  have p: "parse (fixed_mecab [35, 9, 35, 9, 35, 9, 21517, 35422, 45, 35352, 21495, 10]) [35] 0 =
     Some (Inr [base_item [35] [35] 0 [[21517, 35422], [35352, 21495]] None None])"
    unfolding parse_def fixed_mecab_def t by (simp add: token_simps base_item_def)
  have h: "hd [[21517, 35422], [35352, 21495]] \<noteq> SYMBOL_PART_OF_SPEECH"
    by (simp add: SYMBOL_PART_OF_SPEECH_def)
  have s: "is_symbol (base_item [35] [35] 0 [[21517, 35422], [35352, 21495]] None a)" for a
    by (simp add: is_symbol_def base_item_def SYMBOL_PART_OF_SPEECH_def)
  have m: "find_meta_lexical_items init_JMdict [x] = Inr []" for x
    by (simp add: find_meta_lexical_items_def find_meta_outer.simps find_meta_inner.simps)
  have "find_lexical_items (fixed_mecab [35, 9, 35, 9, 35, 9, 21517, 35422, 45, 35352, 21495, 10])
     init_JMdict [35] 0 \<lparr>full_text = [35]\<rparr> = Some (Inr [])"
    unfolding find_lexical_items_def p using s by (simp add: m is_symbol_article)
  with p h s show ?thesis by simp
qed

section \<open>The two indexes of the dictionary\<close>

lemma map_of_dict_append:
  "map_of (dict_append k v d) = (map_of d)(k \<mapsto> dict_get d k @ [v])"
  by (simp add: dict_append_def dict_get_def update_conv')

lemma distinct_dict_append:
  "distinct (map fst d) \<Longrightarrow> distinct (map fst (dict_append k v d))"
  by (simp add: dict_append_def distinct_update)

lemma dict_get_dict_append:
  "dict_get (dict_append k v d) k' = (if k' = k then dict_get d k @ [v] else dict_get d k')"
  by (simp add: dict_get_def map_of_dict_append)

lemma group_entries_Nil: "group_entries key [] d = d"
  by (simp add: group_entries_def)

lemma group_entries_Cons:
  "group_entries key (e # es) d = group_entries key es (dict_append (key e) e d)"
  by (simp add: group_entries_def)

lemma dict_get_group_entries:
  "dict_get (group_entries key es d) k = dict_get d k @ filter (\<lambda>e. key e = k) es"
  by (induction es arbitrary: d) (auto simp: group_entries_Nil group_entries_Cons dict_get_dict_append)

lemma distinct_group_entries:
  "distinct (map fst d) \<Longrightarrow> distinct (map fst (group_entries key es d))"
  by (induction es arbitrary: d) (auto simp: group_entries_Nil group_entries_Cons distinct_dict_append)

lemma vals_nonempty_Nil: "vals_nonempty []"
  by (simp add: vals_nonempty_def)

lemma vals_nonempty_dict_append: "vals_nonempty d \<Longrightarrow> vals_nonempty (dict_append k v d)"
  by (auto simp: vals_nonempty_def map_of_dict_append)

lemma vals_nonempty_update: "vals_nonempty d \<Longrightarrow> l \<noteq> [] \<Longrightarrow> vals_nonempty (AList.update k l d)"
  by (auto simp: vals_nonempty_def update_conv')

lemma vals_nonempty_group_entries:
  "vals_nonempty d \<Longrightarrow> vals_nonempty (group_entries key es d)"
  by (induction es arbitrary: d)
     (auto simp: group_entries_Nil group_entries_Cons vals_nonempty_dict_append)

lemma vals_nonempty_contains:
  "vals_nonempty d \<Longrightarrow> dict_contains d k = (dict_get d k \<noteq> [])"
  by (auto simp: vals_nonempty_def dict_contains_def dict_get_def split: option.splits)

lemma map_of_group_entries:
  "vals_nonempty d \<Longrightarrow> map_of (group_entries key es d) k =
     (if dict_get d k @ filter (\<lambda>e. key e = k) es = [] then None
      else Some (dict_get d k @ filter (\<lambda>e. key e = k) es))"
proof -
  assume v: "vals_nonempty d"
  have g: "dict_get (group_entries key es d) k = dict_get d k @ filter (\<lambda>e. key e = k) es"
    by (rule dict_get_group_entries)
  from vals_nonempty_group_entries[OF v, of key es]
  have "vals_nonempty (group_entries key es d)" .
  then show ?thesis using g
    by (auto simp: vals_nonempty_def dict_get_def split: option.splits)
qed

lemma get_mecab_decomb_decomp_of:
  "get_mecab_decomb mecab e = Some (Inr dc) \<Longrightarrow> dc = decomp_of mecab (text_form e)"
  by (auto simp: get_mecab_decomb_def decomp_of_def split: option.splits sum.splits)

lemma load_entries_groups:
  "load_entries mecab es em dm = Some (Inr (em', dm')) \<Longrightarrow>
     em' = group_entries text_form es em \<and>
     dm' = group_entries (\<lambda>e. decomp_of mecab (text_form e)) es dm"
proof (induction es arbitrary: em dm)
  case Nil
  then show ?case by (simp add: group_entries_Nil)
next
  case (Cons e es)
  from Cons.prems obtain dc where d: "get_mecab_decomb mecab e = Some (Inr dc)"
    and r: "load_entries mecab es (dict_append (text_form e) e em) (dict_append dc e dm) =
              Some (Inr (em', dm'))"
    by (auto split: option.splits sum.splits)
  from get_mecab_decomb_decomp_of[OF d] Cons.IH[OF r] show ?case
    by (simp add: group_entries_Cons)
qed

lemma load_shelf_items_eq:
  "load_shelf_items items em dm =
     (group_entries text_form (concat (map snd items)) em,
      fold (\<lambda>(k, v). AList.update k v) items dm)"
  by (induction items em dm rule: load_shelf_items.induct)
     (simp_all add: group_entries_def)

lemma update_new_key:
  "k \<notin> fst ` set acc \<Longrightarrow> AList.update k v acc = acc @ [(k, v)]"
  by (induction acc) auto

lemma fold_update_distinct:
  "distinct (map fst acc @ map fst items) \<Longrightarrow>
     fold (\<lambda>(k, v). AList.update k v) items acc = acc @ items"
proof (induction items arbitrary: acc)
  case Nil
  then show ?case by simp
next
  case (Cons kv items)
  obtain k v where kv: "kv = (k, v)" by (cases kv)
  from Cons.prems kv have n: "k \<notin> fst ` set acc" by auto
  from Cons.prems kv have d: "distinct (map fst (acc @ [(k, v)]) @ map fst items)" by auto
  from Cons.IH[OF d] update_new_key[OF n] kv show ?case by simp
qed

lemma concat_map_single_key:
  "distinct (map fst m) \<Longrightarrow> \<forall>kl\<in>set m. fst kl \<noteq> k0 \<longrightarrow> f (snd kl) = [] \<Longrightarrow>
     concat (map (\<lambda>kl. f (snd kl)) m) = (case map_of m k0 of None \<Rightarrow> [] | Some l \<Rightarrow> f l)"
proof (induction m)
  case Nil
  then show ?case by simp
next
  case (Cons kl m)
  show ?case
  proof (cases "fst kl = k0")
    case True
    have "\<forall>kl'\<in>set m. f (snd kl') = []"
    proof
      fix kl' assume m: "kl' \<in> set m"
      with Cons.prems(1) have "fst kl' \<noteq> fst kl" by (auto simp: image_iff)
      with Cons.prems(2) m True show "f (snd kl') = []" by simp
    qed
    then have "concat (map (\<lambda>kl. f (snd kl)) m) = []" by (induction m) auto
    with True show ?thesis by (cases kl) simp
  next
    case False
    with Cons show ?thesis by (cases kl) auto
  qed
qed

lemma filter_concat_groups:
  assumes "\<And>e. P e \<Longrightarrow> key e = k0"
  shows "filter P (concat (map snd (group_entries key es []))) = filter P es"
proof -
  let ?m = "group_entries key es []"
  have d: "distinct (map fst ?m)" by (simp add: distinct_group_entries)
  have mo: "\<And>k l. map_of ?m k = Some l \<Longrightarrow> l = filter (\<lambda>e. key e = k) es"
    using map_of_group_entries[OF vals_nonempty_Nil, of key es]
    by (auto simp: dict_get_def split: if_splits)
  have other: "\<forall>kl\<in>set ?m. fst kl \<noteq> k0 \<longrightarrow> filter P (snd kl) = []"
  proof (intro ballI impI)
    fix kl assume kl: "kl \<in> set ?m" "fst kl \<noteq> k0"
    with d have "map_of ?m (fst kl) = Some (snd kl)" by (cases kl) simp
    from mo[OF this] kl(2) assms show "filter P (snd kl) = []"
      by (auto simp: filter_empty_conv)
  qed
  have "filter P (concat (map snd ?m)) = concat (map (\<lambda>kl. filter P (snd kl)) ?m)"
    by (simp add: filter_concat comp_def)
  also have "\<dots> = (case map_of ?m k0 of None \<Rightarrow> [] | Some l \<Rightarrow> filter P l)"
    by (rule concat_map_single_key[OF d other])
  also have "\<dots> = filter P es"
  proof (cases "map_of ?m k0")
    case None
    then have "filter (\<lambda>e. key e = k0) es = []"
      using map_of_group_entries[OF vals_nonempty_Nil, of key es k0]
      by (auto simp: dict_get_def split: if_splits)
    then have "filter P es = []" using assms by (auto simp: filter_empty_conv)
    with None show ?thesis by simp
  next
    case (Some l)
    from mo[OF Some] have "filter P l = filter (\<lambda>e. P e \<and> key e = k0) es" by (simp add: conj_commute)
    also have "\<dots> = filter P es" using assms by (auto intro: filter_cong)
    finally show ?thesis using Some by simp
  qed
  finally show ?thesis .
qed

lemma regroup_text_form:
  "map_of (group_entries text_form
             (concat (map snd (group_entries (\<lambda>e. dc (text_form e)) es []))) []) =
   map_of (group_entries text_form es [])"
proof
  fix t
  have "filter (\<lambda>e. text_form e = t)
          (concat (map snd (group_entries (\<lambda>e. dc (text_form e)) es []))) =
        filter (\<lambda>e. text_form e = t) es"
    by (rule filter_concat_groups[where ?k0.0 = "dc t"]) simp
  then show "map_of (group_entries text_form
             (concat (map snd (group_entries (\<lambda>e. dc (text_form e)) es []))) []) t =
        map_of (group_entries text_form es []) t"
    by (simp add: map_of_group_entries[OF vals_nonempty_Nil] dict_get_def)
qed

lemma max_len_set:
  "max_len ks = (if set ks = {} then Inl ValueError else Inr (Max (length ` set ks)))"
  by (simp add: max_len_def)

lemma set_max_entry_lens_Inr:
  "set_max_entry_lens em dm = Inr jm \<Longrightarrow>
     jm = \<lparr>p_entry_map = Some em, p_mecab_decomp_map = Some dm,
           p_max_text_form_len = Some (Max (length ` fst ` set em)),
           p_max_mecab_decomp_len = Some (Max (length ` fst ` set dm))\<rparr> \<and>
     em \<noteq> [] \<and> dm \<noteq> []"
  by (auto simp: set_max_entry_lens_def max_len_def image_image split: if_splits)

lemma set_max_entry_lens_same_keys:
  assumes "set_max_entry_lens em1 dm = Inr jm1" and "fst ` set em2 = fst ` set em1"
  shows "set_max_entry_lens em2 dm = Inr (jm1\<lparr>p_entry_map := Some em2\<rparr>)"
proof -
  from set_max_entry_lens_Inr[OF assms(1)] have j: "jm1 =
      \<lparr>p_entry_map = Some em1, p_mecab_decomp_map = Some dm,
        p_max_text_form_len = Some (Max (length ` fst ` set em1)),
        p_max_mecab_decomp_len = Some (Max (length ` fst ` set dm))\<rparr>"
    and ne: "em1 \<noteq> []" "dm \<noteq> []" by simp_all
  from ne(1) assms(2) have "em2 \<noteq> []" by auto
  moreover have "(\<lambda>x. length (fst x)) ` set em2 = (\<lambda>x. length (fst x)) ` set em1"
    using assms(2) by (metis image_image)
  ultimately show ?thesis using ne(2)
    by (subst j) (simp add: set_max_entry_lens_def max_len_def image_image)
qed

lemma load_from_xml:
  assumes "load_from_shelf_if_newer store0 xml_time = Inr None"
    and "load_jmdict db_file_is_path mecab xml_time xml_entry_objs store0 now =
           Some (Inr (jm, store1))"
  shows "\<exists>em dm. load_entries mecab (concat xml_entry_objs) [] [] = Some (Inr (em, dm)) \<and>
           set_max_entry_lens em dm = Inr jm \<and>
           store1 = write_to_shelf db_file_is_path dm now store0"
  using assms
  by (auto simp: load_jmdict_def split: option.splits sum.splits)

lemma load_from_shelf_taken:
  assumes "load_from_shelf_if_newer store comp_time = Inr (Some jm)"
  shows "\<exists>shelf_time items u v. path_mtime store = Some shelf_time \<and> comp_time < shelf_time \<and>
           utcfromtimestamp shelf_time = Inr u \<and> utcfromtimestamp comp_time = Inr v \<and>
           db_items store = Some items \<and>
           set_max_entry_lens (group_entries text_form (concat (map snd items)) [])
             (fold (\<lambda>(k, v). AList.update k v) items []) = Inr jm"
  using assms
  by (auto simp: load_from_shelf_if_newer_def load_shelf_items_eq
      split: option.splits sum.splits if_splits)

lemma load_from_shelf_newer:
  assumes "path_mtime store = Some shelf_time" and "comp_time < shelf_time"
    and "utcfromtimestamp shelf_time = Inr u" and "utcfromtimestamp comp_time = Inr v"
    and "db_items store = Some items"
  shows "load_from_shelf_if_newer store comp_time =
     (case set_max_entry_lens (group_entries text_form (concat (map snd items)) [])
              (fold (\<lambda>(k, v). AList.update k v) items []) of
        Inl e \<Rightarrow> Inl e
      | Inr jm \<Rightarrow> Inr (Some jm))"
  using assms
  by (simp add: load_from_shelf_if_newer_def load_shelf_items_eq split: sum.splits)

lemma load_jmdict_taken:
  "load_from_shelf_if_newer store xml_time = Inr (Some jm) \<Longrightarrow>
     load_jmdict db_file_is_path mecab xml_time xml_entry_objs store now = Some (Inr (jm, store))"
  by (simp add: load_jmdict_def)

lemma cache_not_taken_without_path_file:
  "path_mtime store = None \<Longrightarrow> load_from_shelf_if_newer store comp_time = Inr None"
  "path_mtime (write_to_shelf False dm now store) = path_mtime store"
  by (simp_all add: load_from_shelf_if_newer_def write_to_shelf_def)

lemma fst_set_dom: "fst ` set m = dom (map_of m)"
  by (simp add: dom_map_of_conv_image_fst)

lemma reload_same_indexes:
  assumes le: "load_entries mecab es [] [] = Some (Inr (em1, dm))"
    and sm: "set_max_entry_lens em1 dm = Inr jm1"
  shows "\<exists>em2 md mt.
      set_max_entry_lens (group_entries text_form (concat (map snd dm)) [])
        (fold (\<lambda>(k, v). AList.update k v) dm []) = Inr (jm1\<lparr>p_entry_map := Some em2\<rparr>) \<and>
      map_of em2 = map_of em1 \<and>
      p_entry_map jm1 = Some em1 \<and> p_mecab_decomp_map jm1 = Some dm \<and>
      p_max_text_form_len jm1 = Some mt \<and> p_max_mecab_decomp_len jm1 = Some md"
proof -
  let ?dc = "decomp_of mecab"
  from load_entries_groups[OF le] have em1: "em1 = group_entries text_form es []"
    and dm: "dm = group_entries (\<lambda>e. ?dc (text_form e)) es []" by simp_all
  let ?em2 = "group_entries text_form (concat (map snd dm)) []"
  have dd: "distinct (map fst dm)" unfolding dm by (simp add: distinct_group_entries)
  then have fu: "fold (\<lambda>(k, v). AList.update k v) dm [] = dm"
    using fold_update_distinct[of "[]" dm] by simp
  have mo: "map_of ?em2 = map_of em1"
    unfolding dm em1 by (rule regroup_text_form)
  then have keys: "fst ` set ?em2 = fst ` set em1" by (simp add: fst_set_dom)
  from set_max_entry_lens_same_keys[OF sm keys]
  have sm2: "set_max_entry_lens ?em2 dm = Inr (jm1\<lparr>p_entry_map := Some ?em2\<rparr>)" .
  from set_max_entry_lens_Inr[OF sm] have f1: "p_entry_map jm1 = Some em1"
    "p_mecab_decomp_map jm1 = Some dm"
    "p_max_text_form_len jm1 = Some (Max (length ` fst ` set em1))"
    "p_max_mecab_decomp_len jm1 = Some (Max (length ` fst ` set dm))"
    by simp_all
  from sm2 fu mo f1 show ?thesis by auto
qed

section \<open>Reloading the dictionary from the cache\<close>

text \<open>
  Claim C8.  Let a load read the XML entries (no file at the shelf path, or one not newer than
  the XML file) and succeed.  Then the shelf database holds the items of the decomposition
  index, and when the database is the file at the shelf path that file has the time of the
  write.  If afterwards the file at the shelf path is strictly newer than the XML file and both
  times are in the range of \<open>datetime\<close>, a later load takes the cache, succeeds and leaves the data
  directory as it is.  Whenever a later load takes the cache, the object it loads has the same
  decomposition index, a text-form index that maps every text form to the same list of entries
  in the same order, and the same two maximal lengths.
\<close>

theorem cache_round_trip:
  "load_from_shelf_if_newer store0 xml_time = Inr None \<and>
   load_jmdict db_file_is_path mecab xml_time xml_entry_objs store0 now =
     Some (Inr (jm1, store1)) \<longrightarrow>
     (\<exists>em1 dm md mt.
        p_entry_map jm1 = Some em1 \<and> p_mecab_decomp_map jm1 = Some dm \<and>
        p_max_text_form_len jm1 = Some mt \<and> p_max_mecab_decomp_len jm1 = Some md \<and>
        db_items store1 = Some dm \<and>
        (db_file_is_path \<longrightarrow> path_mtime store1 = Some now) \<and>
        (\<forall>shelf_time.
           path_mtime store1 = Some shelf_time \<and> xml_time < shelf_time \<and>
           (\<exists>u. utcfromtimestamp shelf_time = Inr u) \<and>
           (\<exists>v. utcfromtimestamp xml_time = Inr v) \<longrightarrow>
             (\<exists>em2 jm2.
                load_from_shelf_if_newer store1 xml_time = Inr (Some jm2) \<and>
                load_jmdict db_file_is_path mecab xml_time later_entry_objs store1 later =
                  Some (Inr (jm2, store1)) \<and>
                p_entry_map jm2 = Some em2 \<and> map_of em2 = map_of em1 \<and>
                p_mecab_decomp_map jm2 = Some dm \<and>
                p_max_text_form_len jm2 = Some mt \<and> p_max_mecab_decomp_len jm2 = Some md)) \<and>
        (\<forall>jm2. load_from_shelf_if_newer store1 xml_time = Inr (Some jm2) \<longrightarrow>
           (\<exists>em2. p_entry_map jm2 = Some em2 \<and> map_of em2 = map_of em1 \<and>
              p_mecab_decomp_map jm2 = Some dm \<and>
              p_max_text_form_len jm2 = Some mt \<and> p_max_mecab_decomp_len jm2 = Some md)))"
proof (intro impI)
  assume h: "load_from_shelf_if_newer store0 xml_time = Inr None \<and>
   load_jmdict db_file_is_path mecab xml_time xml_entry_objs store0 now =
     Some (Inr (jm1, store1))"
  from h load_from_xml[of store0 xml_time db_file_is_path mecab xml_entry_objs now jm1 store1]
  obtain em1 dm where
    le: "load_entries mecab (concat xml_entry_objs) [] [] = Some (Inr (em1, dm))"
    and sm: "set_max_entry_lens em1 dm = Inr jm1"
    and st: "store1 = write_to_shelf db_file_is_path dm now store0"
    by blast
  from reload_same_indexes[OF le sm] obtain em2 md mt where
    sm2: "set_max_entry_lens (group_entries text_form (concat (map snd dm)) [])
        (fold (\<lambda>(k, v). AList.update k v) dm []) = Inr (jm1\<lparr>p_entry_map := Some em2\<rparr>)"
    and mo: "map_of em2 = map_of em1"
    and f1: "p_entry_map jm1 = Some em1" "p_mecab_decomp_map jm1 = Some dm"
      "p_max_text_form_len jm1 = Some mt" "p_max_mecab_decomp_len jm1 = Some md"
    by blast
  let ?jm2 = "jm1\<lparr>p_entry_map := Some em2\<rparr>"
  from f1 have f2: "p_entry_map ?jm2 = Some em2" "p_mecab_decomp_map ?jm2 = Some dm"
    "p_max_text_form_len ?jm2 = Some mt" "p_max_mecab_decomp_len ?jm2 = Some md"
    by simp_all
  from st have db: "db_items store1 = Some dm" by (simp add: write_to_shelf_def)
  from st have pm: "db_file_is_path \<longrightarrow> path_mtime store1 = Some now"
    by (simp add: write_to_shelf_def)
  have a: "\<forall>shelf_time.
           path_mtime store1 = Some shelf_time \<and> xml_time < shelf_time \<and>
           (\<exists>u. utcfromtimestamp shelf_time = Inr u) \<and>
           (\<exists>v. utcfromtimestamp xml_time = Inr v) \<longrightarrow>
             (\<exists>em2 jm2.
                load_from_shelf_if_newer store1 xml_time = Inr (Some jm2) \<and>
                load_jmdict db_file_is_path mecab xml_time later_entry_objs store1 later =
                  Some (Inr (jm2, store1)) \<and>
                p_entry_map jm2 = Some em2 \<and> map_of em2 = map_of em1 \<and>
                p_mecab_decomp_map jm2 = Some dm \<and>
                p_max_text_form_len jm2 = Some mt \<and> p_max_mecab_decomp_len jm2 = Some md)"
  proof (intro allI impI)
    fix shelf_time
    assume "path_mtime store1 = Some shelf_time \<and> xml_time < shelf_time \<and>
           (\<exists>u. utcfromtimestamp shelf_time = Inr u) \<and>
           (\<exists>v. utcfromtimestamp xml_time = Inr v)"
    then obtain u v where p: "path_mtime store1 = Some shelf_time" "xml_time < shelf_time"
      "utcfromtimestamp shelf_time = Inr u" "utcfromtimestamp xml_time = Inr v" by blast
    from load_from_shelf_newer[OF p db] sm2
    have t: "load_from_shelf_if_newer store1 xml_time = Inr (Some ?jm2)" by simp
    from load_jmdict_taken[OF t] t f2 mo
    show "\<exists>em2 jm2.
                load_from_shelf_if_newer store1 xml_time = Inr (Some jm2) \<and>
                load_jmdict db_file_is_path mecab xml_time later_entry_objs store1 later =
                  Some (Inr (jm2, store1)) \<and>
                p_entry_map jm2 = Some em2 \<and> map_of em2 = map_of em1 \<and>
                p_mecab_decomp_map jm2 = Some dm \<and>
                p_max_text_form_len jm2 = Some mt \<and> p_max_mecab_decomp_len jm2 = Some md"
      by blast
  qed
  have b: "\<forall>jm2. load_from_shelf_if_newer store1 xml_time = Inr (Some jm2) \<longrightarrow>
           (\<exists>em2. p_entry_map jm2 = Some em2 \<and> map_of em2 = map_of em1 \<and>
              p_mecab_decomp_map jm2 = Some dm \<and>
              p_max_text_form_len jm2 = Some mt \<and> p_max_mecab_decomp_len jm2 = Some md)"
  proof (intro allI impI)
    fix jm2 assume "load_from_shelf_if_newer store1 xml_time = Inr (Some jm2)"
    from load_from_shelf_taken[OF this] db sm2 have "jm2 = ?jm2" by auto
    with f2 mo show "\<exists>em2. p_entry_map jm2 = Some em2 \<and> map_of em2 = map_of em1 \<and>
              p_mecab_decomp_map jm2 = Some dm \<and>
              p_max_text_form_len jm2 = Some mt \<and> p_max_mecab_decomp_len jm2 = Some md"
      by blast
  qed
  from f1 db pm a b show "\<exists>em1 dm md mt.
        p_entry_map jm1 = Some em1 \<and> p_mecab_decomp_map jm1 = Some dm \<and>
        p_max_text_form_len jm1 = Some mt \<and> p_max_mecab_decomp_len jm1 = Some md \<and>
        db_items store1 = Some dm \<and>
        (db_file_is_path \<longrightarrow> path_mtime store1 = Some now) \<and>
        (\<forall>shelf_time.
           path_mtime store1 = Some shelf_time \<and> xml_time < shelf_time \<and>
           (\<exists>u. utcfromtimestamp shelf_time = Inr u) \<and>
           (\<exists>v. utcfromtimestamp xml_time = Inr v) \<longrightarrow>
             (\<exists>em2 jm2.
                load_from_shelf_if_newer store1 xml_time = Inr (Some jm2) \<and>
                load_jmdict db_file_is_path mecab xml_time later_entry_objs store1 later =
                  Some (Inr (jm2, store1)) \<and>
                p_entry_map jm2 = Some em2 \<and> map_of em2 = map_of em1 \<and>
                p_mecab_decomp_map jm2 = Some dm \<and>
                p_max_text_form_len jm2 = Some mt \<and> p_max_mecab_decomp_len jm2 = Some md)) \<and>
        (\<forall>jm2. load_from_shelf_if_newer store1 xml_time = Inr (Some jm2) \<longrightarrow>
           (\<exists>em2. p_entry_map jm2 = Some em2 \<and> map_of em2 = map_of em1 \<and>
              p_mecab_decomp_map jm2 = Some dm \<and>
              p_max_text_form_len jm2 = Some mt \<and> p_max_mecab_decomp_len jm2 = Some md))"
    by blast
qed

text \<open>The example dictionary with the database kept in the file at the shelf path: loaded
  from its three entries at time 200 with the XML file of time 100, then reloaded from the
  cache.\<close>

lemma utcfromtimestamp_examples:
  "utcfromtimestamp 100 = Inr 100000000" "utcfromtimestamp 200 = Inr 200000000"
  "utcfromtimestamp 253402300800 = Inl ValueError"
  by (simp_all add: utcfromtimestamp_def)


theorem cache_round_trip_witness:
  "load_from_shelf_if_newer no_shelf 100 = Inr None \<and>
   load_jmdict True dict_mecab 100 dict_xml no_shelf 200 =
     Some (Inr (dict_loaded, \<lparr>path_mtime = Some 200, db_items = Some dict_decomp_map\<rparr>)) \<and>
   utcfromtimestamp 200 = Inr 200000000 \<and> utcfromtimestamp 100 = Inr 100000000 \<and>
   (\<exists>em2 jm2.
      load_jmdict True dict_mecab 100 []
          \<lparr>path_mtime = Some 200, db_items = Some dict_decomp_map\<rparr> 300 =
        Some (Inr (jm2, \<lparr>path_mtime = Some 200, db_items = Some dict_decomp_map\<rparr>)) \<and>
      p_entry_map jm2 = Some em2 \<and>
      map_of em2 [29289] = Some [dict_entry [50] [29289], dict_entry [51] [29289]] \<and>
      p_mecab_decomp_map jm2 = Some dict_decomp_map \<and>
      p_max_text_form_len jm2 = Some 3 \<and> p_max_mecab_decomp_len jm2 = Some 2)"
proof -
  let ?st = "\<lparr>path_mtime = Some 200, db_items = Some dict_decomp_map\<rparr>"
  have n: "load_from_shelf_if_newer no_shelf 100 = Inr None"
    by (simp add: load_from_shelf_if_newer_def no_shelf_def)
  have f: "p_entry_map dict_loaded =
      Some [([39135, 12409, 29289], [dict_entry [49] [39135, 12409, 29289]]),
            ([29289], [dict_entry [50] [29289], dict_entry [51] [29289]])]"
    "p_mecab_decomp_map dict_loaded = Some dict_decomp_map"
    "p_max_text_form_len dict_loaded = Some 3" "p_max_mecab_decomp_len dict_loaded = Some 2"
    by (simp_all add: dict_loaded_def)
  have p: "path_mtime ?st = Some 200 \<and> (100 :: real) < 200 \<and>
           (\<exists>u. utcfromtimestamp 200 = Inr u) \<and> (\<exists>v. utcfromtimestamp 100 = Inr v)"
    by (simp add: utcfromtimestamp_examples)
  from cache_round_trip[of no_shelf 100 True dict_mecab dict_xml 200 dict_loaded ?st "[]" 300]
    n dict_load
  obtain em1 dm md mt where r:
    "p_entry_map dict_loaded = Some em1" "p_mecab_decomp_map dict_loaded = Some dm"
    "p_max_text_form_len dict_loaded = Some mt" "p_max_mecab_decomp_len dict_loaded = Some md"
    "\<forall>shelf_time.
           path_mtime ?st = Some shelf_time \<and> 100 < shelf_time \<and>
           (\<exists>u. utcfromtimestamp shelf_time = Inr u) \<and>
           (\<exists>v. utcfromtimestamp 100 = Inr v) \<longrightarrow>
             (\<exists>em2 jm2.
                load_from_shelf_if_newer ?st 100 = Inr (Some jm2) \<and>
                load_jmdict True dict_mecab 100 [] ?st 300 = Some (Inr (jm2, ?st)) \<and>
                p_entry_map jm2 = Some em2 \<and> map_of em2 = map_of em1 \<and>
                p_mecab_decomp_map jm2 = Some dm \<and>
                p_max_text_form_len jm2 = Some mt \<and> p_max_mecab_decomp_len jm2 = Some md)"
    by blast
  from r(5) p obtain em2 jm2 where q:
    "load_jmdict True dict_mecab 100 [] ?st 300 = Some (Inr (jm2, ?st))"
    "p_entry_map jm2 = Some em2" "map_of em2 = map_of em1"
    "p_mecab_decomp_map jm2 = Some dm"
    "p_max_text_form_len jm2 = Some mt" "p_max_mecab_decomp_len jm2 = Some md"
    by blast
  from r(1) f(1) have "map_of em1 [29289] = Some [dict_entry [50] [29289], dict_entry [51] [29289]]"
    by auto
  with q r f have "\<exists>em2 jm2.
      load_jmdict True dict_mecab 100 [] ?st 300 = Some (Inr (jm2, ?st)) \<and>
      p_entry_map jm2 = Some em2 \<and>
      map_of em2 [29289] = Some [dict_entry [50] [29289], dict_entry [51] [29289]] \<and>
      p_mecab_decomp_map jm2 = Some dict_decomp_map \<and>
      p_max_text_form_len jm2 = Some 3 \<and> p_max_mecab_decomp_len jm2 = Some 2"
    by auto
  with n dict_load utcfromtimestamp_examples(1,2) show ?thesis by simp
qed


lemma vals_nonempty_fold_update:
  "vals_nonempty acc \<Longrightarrow> list_all (\<lambda>(k, l). l \<noteq> []) items \<Longrightarrow>
     vals_nonempty (fold (\<lambda>(k, v). AList.update k v) items acc)"
  by (induction items arbitrary: acc) (auto simp: vals_nonempty_update)

lemma vals_nonempty_list_all:
  assumes "vals_nonempty d" and "distinct (map fst d)"
  shows "list_all (\<lambda>(k, l). l \<noteq> []) d"
proof -
  have "l \<noteq> []" if "(k, l) \<in> set d" for k l
  proof -
    from that assms(2) have "map_of d k = Some l" by simp
    with assms(1) show ?thesis unfolding vals_nonempty_def by blast
  qed
  then show ?thesis by (auto simp: list_all_iff)
qed

lemma loaded_lookup_agree:
  assumes "p_entry_map jm = Some em" and "p_mecab_decomp_map jm = Some dm"
    and "vals_nonempty em" and "vals_nonempty dm"
  shows "\<exists>b l. contains_entry jm k = Inr b \<and> get_entries jm k = Inr l \<and> (b \<longleftrightarrow> l \<noteq> [])"
  using assms vals_nonempty_contains[OF assms(3)] vals_nonempty_contains[OF assms(4)]
  by (cases k) (simp_all add: contains_entry_def get_entries_def)

lemma load_jmdict_nonempty:
  assumes "shelf_lists_nonempty store0"
    and "load_jmdict db_file_is_path mecab xml_time xml_entry_objs store0 now =
           Some (Inr (jm, store1))"
  shows "shelf_lists_nonempty store1 \<and>
         (\<exists>em dm. p_entry_map jm = Some em \<and> p_mecab_decomp_map jm = Some dm \<and>
            vals_nonempty em \<and> vals_nonempty dm)"
proof (cases "load_from_shelf_if_newer store0 xml_time")
  case (Inl e)
  with assms(2) show ?thesis by (simp add: load_jmdict_def)
next
  case (Inr r)
  show ?thesis
  proof (cases r)
    case None
    with Inr load_from_xml[OF _ assms(2)] obtain em dm where
      le: "load_entries mecab (concat xml_entry_objs) [] [] = Some (Inr (em, dm))"
      and sm: "set_max_entry_lens em dm = Inr jm"
      and sh: "store1 = write_to_shelf db_file_is_path dm now store0"
      by blast
    from load_entries_groups[OF le] have v: "vals_nonempty em" "vals_nonempty dm"
      "distinct (map fst dm)"
      by (simp_all add: vals_nonempty_group_entries vals_nonempty_Nil distinct_group_entries)
    from vals_nonempty_list_all[OF v(2,3)] sh have "shelf_lists_nonempty store1"
      by (simp add: shelf_lists_nonempty_def write_to_shelf_def)
    with set_max_entry_lens_Inr[OF sm] v show ?thesis by simp
  next
    case (Some jm')
    with Inr assms(2) have j: "jm' = jm" "store1 = store0" by (simp_all add: load_jmdict_def)
    from Inr Some load_from_shelf_taken[of store0 xml_time jm'] obtain items where
      s0: "db_items store0 = Some items"
      and sm: "set_max_entry_lens (group_entries text_form (concat (map snd items)) [])
                 (fold (\<lambda>(k, v). AList.update k v) items []) = Inr jm'"
      by auto
    from assms(1) s0 have "list_all (\<lambda>(k, l). l \<noteq> []) items"
      by (simp add: shelf_lists_nonempty_def)
    from vals_nonempty_fold_update[OF vals_nonempty_Nil this]
    have "vals_nonempty (fold (\<lambda>(k, v). AList.update k v) items [])" .
    moreover have "vals_nonempty (group_entries text_form (concat (map snd items)) [])"
      by (simp add: vals_nonempty_group_entries vals_nonempty_Nil)
    ultimately show ?thesis using set_max_entry_lens_Inr[OF sm] j assms(1) by simp
  qed
qed


section \<open>Membership and lookup\<close>

text \<open>
  Claim C9.  Before any load, \<open>contains_entry\<close> and \<open>get_entries\<close> raise
  \<open>ResourceNotReadyError\<close> for every key.  After a successful load, from the XML entries or
  from a shelf database whose lists are non-empty, \<open>contains_entry\<close> returns \<open>True\<close> for a key,
  a text form or a decomposition, exactly when \<open>get_entries\<close> returns a non-empty list for it;
  and the shelf database the load leaves has non-empty lists again, so every database written
  by a load qualifies.
\<close>

theorem contains_entry_iff_get_entries:
  "contains_entry init_JMdict k = Inl ResourceNotReadyError \<and>
   get_entries init_JMdict k = Inl ResourceNotReadyError \<and>
   (shelf_lists_nonempty store0 \<and>
    load_jmdict db_file_is_path mecab xml_time xml_entry_objs store0 now =
      Some (Inr (jm, store1)) \<longrightarrow>
      shelf_lists_nonempty store1 \<and>
      (\<exists>b l. contains_entry jm k = Inr b \<and> get_entries jm k = Inr l \<and> (b \<longleftrightarrow> l \<noteq> [])))"
proof -
  have i: "contains_entry init_JMdict k = Inl ResourceNotReadyError"
    "get_entries init_JMdict k = Inl ResourceNotReadyError"
    by (simp_all add: contains_entry_def get_entries_def init_JMdict_def)
  have "shelf_lists_nonempty store1 \<and>
      (\<exists>b l. contains_entry jm k = Inr b \<and> get_entries jm k = Inr l \<and> (b \<longleftrightarrow> l \<noteq> []))"
    if h: "shelf_lists_nonempty store0"
      "load_jmdict db_file_is_path mecab xml_time xml_entry_objs store0 now =
         Some (Inr (jm, store1))"
  proof -
    from load_jmdict_nonempty[OF h] obtain em dm where
      s: "shelf_lists_nonempty store1" and
      m: "p_entry_map jm = Some em" "p_mecab_decomp_map jm = Some dm"
         "vals_nonempty em" "vals_nonempty dm"
      by blast
    from loaded_lookup_agree[OF m, of k] s show ?thesis by simp
  qed
  with i show ?thesis by blast
qed


text \<open>In the example dictionary the text form mono has its two entries, and the decomposition
  (mono, full stop) has none.\<close>

theorem contains_entry_iff_get_entries_witness:
  "shelf_lists_nonempty no_shelf \<and>
   load_jmdict True dict_mecab 100 dict_xml no_shelf 200 =
     Some (Inr (dict_loaded, \<lparr>path_mtime = Some 200, db_items = Some dict_decomp_map\<rparr>)) \<and>
   shelf_lists_nonempty \<lparr>path_mtime = Some 200, db_items = Some dict_decomp_map\<rparr> \<and>
   contains_entry dict_loaded (TextForm [29289]) = Inr True \<and>
   get_entries dict_loaded (TextForm [29289]) =
     Inr [dict_entry [50] [29289], dict_entry [51] [29289]] \<and>
   contains_entry dict_loaded (MecabDecomp [[29289], [12290]]) = Inr False \<and>
   get_entries dict_loaded (MecabDecomp [[29289], [12290]]) = Inr []"
proof -
  have n: "shelf_lists_nonempty no_shelf" by (simp add: shelf_lists_nonempty_def no_shelf_def)
  have g: "get_entries dict_loaded (TextForm [29289]) =
             Inr [dict_entry [50] [29289], dict_entry [51] [29289]]"
    "get_entries dict_loaded (MecabDecomp [[29289], [12290]]) = Inr []"
    by (simp_all add: get_entries_def dict_loaded_def dict_get_def dict_decomp_map_def)
  from contains_entry_iff_get_entries[of "TextForm [29289]" no_shelf True dict_mecab 100
      dict_xml 200 dict_loaded "\<lparr>path_mtime = Some 200, db_items = Some dict_decomp_map\<rparr>"]
    contains_entry_iff_get_entries[of "MecabDecomp [[29289], [12290]]" no_shelf True dict_mecab
      100 dict_xml 200 dict_loaded "\<lparr>path_mtime = Some 200, db_items = Some dict_decomp_map\<rparr>"]
    n dict_load g
  show ?thesis by auto
qed

end
